theory Spec2Isabelle
  imports Main
begin

section \<open>Field elements (o1js \<open>Field\<close>)\<close>

text \<open>
  The contracts and services compute over o1js \<open>Field\<close> values: elements of the
  Pallas base field, held as their canonical representative in \<open>0 ..< fieldOrder\<close>.
  \<open>Field(x)\<close> reduces a bigint, number or numeric string modulo the field order,
  \<open>add\<close> and \<open>sub\<close> wrap around, and the comparison assertions compare the canonical
  representatives.
\<close>

definition fieldOrder :: int where
  "fieldOrder = 28948022309329048855892746252171976963363056481941560715954676764349967630337"

typedef Field = "{x::int. 0 \<le> x \<and> x < fieldOrder}"
  by (rule exI [of _ 0]) (simp add: fieldOrder_def)

setup_lifting type_definition_Field

lift_definition FieldOf :: "int \<Rightarrow> Field" is "\<lambda>x. x mod fieldOrder"
  by (simp add: fieldOrder_def)

lift_definition toBigInt :: "Field \<Rightarrow> int" is "\<lambda>x. x" .

lift_definition fadd :: "Field \<Rightarrow> Field \<Rightarrow> Field" is "\<lambda>x y. (x + y) mod fieldOrder"
  by (simp add: fieldOrder_def)

lift_definition fsub :: "Field \<Rightarrow> Field \<Rightarrow> Field" is "\<lambda>x y. (x - y) mod fieldOrder"
  by (simp add: fieldOrder_def)

text \<open>\<open>x.assertGreaterThanOrEqual(y)\<close> passes when this holds.\<close>

definition greaterThanOrEqual :: "Field \<Rightarrow> Field \<Rightarrow> bool" where
  "greaterThanOrEqual x y = (toBigInt y \<le> toBigInt x)"

text \<open>
  \<open>Poseidon.hash\<close> is the library's hash of a list of field elements to one. Every
  definition below that hashes takes it as the parameter \<open>H\<close>, so that a theorem
  stated for \<open>H\<close> holds for whatever function the library computes.
\<close>

type_synonym poseidon = "Field list \<Rightarrow> Field"

section \<open>Outcomes of a contract method\<close>

text \<open>
  A contract method is a sequence of assertions and state writes that the ledger
  applies as one transaction: when an assertion fails the method throws and no write
  of it reaches the on-chain state. A method is modelled as a function from the state
  before to either the assertion that failed or the state after.
\<close>

datatype failure =
    BadSignature
  | NullifierWitnessInvalid
  | NullifierRootMismatch
  | NullifierKeyMismatch
  | WitnessRootMismatch
  | CommitmentMismatch
  | AgeBelowMinimum
  | NationalityMismatch
  | TotalMismatch
  | SumMismatch

section \<open>Strings as field elements\<close>

text \<open>
  A string value is held as the byte sequence that \<open>TextEncoder.encode\<close> (or
  \<open>Buffer.from(value, 'utf-8')\<close>) returns for it, one \<open>char\<close> per byte; for an
  ASCII string that is the string itself.
\<close>

text \<open>One digit of \<open>Number.prototype.toString(16)\<close>.\<close>

definition hexDigit :: "nat \<Rightarrow> char" where
  "hexDigit n = (if n < 10 then char_of (48 + n) else char_of (87 + n))"

text \<open>\<open>b.toString(16)\<close> for a byte \<open>b\<close>: one digit below 16, two digits from 16 on.\<close>

definition toString16 :: "nat \<Rightarrow> string" where
  "toString16 b = (if b < 16 then [hexDigit b] else [hexDigit (b div 16), hexDigit (b mod 16)])"

definition padStart :: "nat \<Rightarrow> char \<Rightarrow> string \<Rightarrow> string" where
  "padStart n c s = replicate (n - length s) c @ s"

definition padEnd :: "nat \<Rightarrow> char \<Rightarrow> string \<Rightarrow> string" where
  "padEnd n c s = s @ replicate (n - length s) c"

text \<open>The value of one hexadecimal digit, and \<open>BigInt("0x" + s)\<close> for a digit string \<open>s\<close>.\<close>

definition hexValue :: "char \<Rightarrow> nat" where
  "hexValue c =
     (let n = of_char c in
      if 48 \<le> n \<and> n \<le> 57 then n - 48
      else if 97 \<le> n \<and> n \<le> 102 then n - 87
      else if 65 \<le> n \<and> n \<le> 70 then n - 55
      else 0)"

definition BigIntHex :: "string \<Rightarrow> int" where
  "BigIntHex s = int (foldl (\<lambda>a c. 16 * a + hexValue c) 0 s)"

text \<open>The inner loop: the hex digits of the bytes of one chunk.\<close>

definition chunkHex :: "string \<Rightarrow> string" where
  "chunkHex chunk = concat (map (\<lambda>b. padStart 2 (CHR ''0'') (toString16 (of_char b))) chunk)"

text \<open>\<open>Field(BigInt("0x" + hex.padEnd(62, "0")))\<close>.\<close>

definition chunkField :: "string \<Rightarrow> Field" where
  "chunkField chunk = FieldOf (BigIntHex (padEnd 62 (CHR ''0'') (chunkHex chunk)))"

text \<open>
  The outer loop \<open>for (i = 0; i < bytes.length; i += 31)\<close> of
  \<open>PassportUtils.createStringCommitment\<close> and \<open>PassportUtils.createNullifier\<close>: the
  bytes from \<open>i\<close> on are the argument, and a chunk is pushed when its hex string is
  not empty.
\<close>

function utilsFields :: "string \<Rightarrow> Field list" where
  "utilsFields bytes =
     (if bytes = [] then []
      else (if chunkHex (take 31 bytes) \<noteq> [] then [chunkField (take 31 bytes)] else [])
             @ utilsFields (drop 31 bytes))"
  by pat_completeness auto
termination
  by (relation "measure length") auto

declare utilsFields.simps [simp del]

text \<open>
  The same loop in \<open>PassportService.createStringCommitment\<close> and
  \<open>CensusService.hashString\<close>, which push every chunk.
\<close>

function serviceFields :: "string \<Rightarrow> Field list" where
  "serviceFields bytes =
     (if bytes = [] then []
      else chunkField (take 31 bytes) # serviceFields (drop 31 bytes))"
  by pat_completeness auto
termination
  by (relation "measure length") auto

declare serviceFields.simps [simp del]

text \<open>\<open>if (fields.length === 0) fields.push(Field(0))\<close>.\<close>

definition orZero :: "Field list \<Rightarrow> Field list" where
  "orZero fields = (if fields = [] then [FieldOf 0] else fields)"

text \<open>\<open>PassportUtils.createStringCommitment\<close>.\<close>

definition createStringCommitment :: "poseidon \<Rightarrow> string \<Rightarrow> Field \<Rightarrow> Field" where
  "createStringCommitment H value salt =
     (let fields = orZero (utilsFields value);
          valueField = H fields
      in H [valueField, salt])"

text \<open>\<open>PassportUtils.createNullifier\<close>.\<close>

definition createNullifier :: "poseidon \<Rightarrow> string \<Rightarrow> Field \<Rightarrow> Field" where
  "createNullifier H idNumber secret =
     (let fields = orZero (utilsFields idNumber);
          idField = H fields
      in H [idField, secret])"

text \<open>\<open>PassportService.createStringCommitment\<close> (private).\<close>

definition serviceStringCommitment :: "poseidon \<Rightarrow> string \<Rightarrow> Field \<Rightarrow> Field" where
  "serviceStringCommitment H value salt =
     (let valueFields = orZero (serviceFields value);
          valueHash = H valueFields
      in H [valueHash, salt])"

text \<open>\<open>CensusService.hashString\<close> (private).\<close>

definition hashString :: "poseidon \<Rightarrow> string \<Rightarrow> Field" where
  "hashString H value = H (orZero (serviceFields value))"

text \<open>
  \<open>String.prototype.toLowerCase\<close> on strings whose cased letters are ASCII: the bytes
  of \<open>A\<close> to \<open>Z\<close> are folded and every other byte is kept. The source also folds
  cased letters beyond ASCII, which this definition leaves as they are; two strings
  that it makes equal are made equal by the source as well.
\<close>

definition toLowerChar :: "char \<Rightarrow> char" where
  "toLowerChar c =
     (if (65::nat) \<le> of_char c \<and> of_char c \<le> (90::nat) then char_of (of_char c + (32::nat)) else c)"

definition toLowerCase :: "string \<Rightarrow> string" where
  "toLowerCase s = map toLowerChar s"

section \<open>ZkPassport: date commitments and the predicates\<close>

text \<open>\<open>PassportUtils.createDateCommitment\<close> (and the service's private copy of it).\<close>

definition createDateCommitment :: "poseidon \<Rightarrow> int \<Rightarrow> int \<Rightarrow> int \<Rightarrow> Field \<Rightarrow> Field" where
  "createDateCommitment H year month day salt =
     H [FieldOf year, FieldOf month, FieldOf day, salt]"

text \<open>\<open>ZkPassport.proveAgeAbove\<close>: the method reads and writes no contract state.\<close>

definition proveAgeAbove ::
  "poseidon \<Rightarrow> Field \<Rightarrow> Field \<Rightarrow> Field \<Rightarrow> Field \<Rightarrow> Field \<Rightarrow> Field \<Rightarrow> Field \<Rightarrow> Field \<Rightarrow> Field
    \<Rightarrow> failure + unit" where
  "proveAgeAbove H dobYear dobMonth dobDay salt dobCommitment minAge
       currentYear currentMonth currentDay =
     (let computedCommitment = H [dobYear, dobMonth, dobDay, salt] in
      if computedCommitment \<noteq> dobCommitment then Inl CommitmentMismatch
      else
        let age = fsub currentYear dobYear in
        if \<not> greaterThanOrEqual age minAge then Inl AgeBelowMinimum
        else Inr ())"

text \<open>\<open>ZkPassport.proveNationality\<close>: the method reads and writes no contract state.\<close>

definition proveNationality :: "poseidon \<Rightarrow> Field \<Rightarrow> Field \<Rightarrow> Field \<Rightarrow> Field \<Rightarrow> failure + unit" where
  "proveNationality H nationality salt nationalityCommitment targetNationality =
     (let computedCommitment = H [nationality, salt] in
      if computedCommitment \<noteq> nationalityCommitment then Inl CommitmentMismatch
      else if nationality \<noteq> targetNationality then Inl NationalityMismatch
      else Inr ())"

section \<open>Merkle trees, witnesses and maps of the library\<close>

text \<open>
  A \<open>MerkleWitness(20)\<close> is a path of (isLeft, sibling) pairs from the leaf to the
  root, 19 of them for a tree of height 20. \<open>calculateRoot\<close> hashes the leaf up the
  path; at each level the running hash is the left input when \<open>isLeft\<close> holds.
\<close>

type_synonym MerkleWitness = "(bool \<times> Field) list"

definition calculateRoot :: "poseidon \<Rightarrow> MerkleWitness \<Rightarrow> Field \<Rightarrow> Field" where
  "calculateRoot H witness leaf =
     foldl (\<lambda>hash (isLeft, sibling). H (if isLeft then [hash, sibling] else [sibling, hash]))
       leaf witness"

text \<open>
  A \<open>MerkleTree(20)\<close> of a service is held as its leaves, all \<open>Field(0)\<close> at first.
  It has \<open>2 ^ 19\<close> leaves, and \<open>setLeaf\<close> throws for an index beyond them before it
  writes.
\<close>

type_synonym MerkleTree = "nat \<Rightarrow> Field"

definition leafCount :: nat where
  "leafCount = 2 ^ 19"

definition emptyTree :: MerkleTree where
  "emptyTree = (\<lambda>_. FieldOf 0)"

definition setLeaf :: "MerkleTree \<Rightarrow> nat \<Rightarrow> Field \<Rightarrow> MerkleTree option" where
  "setLeaf tree index leaf = (if leafCount \<le> index then None else Some (tree(index := leaf)))"

text \<open>A \<open>MerkleMap\<close> of a service: \<open>get\<close> of a key never set is \<open>Field(0)\<close>.\<close>

type_synonym MerkleMap = "Field \<Rightarrow> Field"

definition emptyMap :: MerkleMap where
  "emptyMap = (\<lambda>_. FieldOf 0)"

text \<open>\<open>Map.prototype.set\<close> on a map held in insertion order; \<open>size\<close> is the length.\<close>

fun mapSet :: "'k \<Rightarrow> 'v \<Rightarrow> ('k \<times> 'v) list \<Rightarrow> ('k \<times> 'v) list" where
  "mapSet k v [] = [(k, v)]"
| "mapSet k v ((k', v') # kvs) =
     (if k = k' then (k, v) # kvs else (k', v') # mapSet k v kvs)"

section \<open>PassportService\<close>

record DateOfBirth =
  year :: int
  month :: int
  day :: int

record IdentityData =
  fullName :: string
  dateOfBirth :: DateOfBirth
  nationality :: string
  idNumber :: string

text \<open>What a service method throws.\<close>

datatype service_error = IdentityNotFound | PassportNotFound | IndexOutOfRange | SyntaxError

text \<open>
  The service's state. \<open>PassportCommitment\<close> keeps the commitment and the nullifier
  as the field elements whose decimal strings the source stores; the record's
  \<open>id\<close> and the identity's \<open>id\<close> are the keys of the two maps, and the creation
  dates are left out.
\<close>

record PassportCommitment =
  pcCommitment :: Field
  pcNullifier :: Field
  pcMerkleIndex :: nat

record PassportService =
  merkleTree :: MerkleTree
  passports :: "(string \<times> PassportCommitment) list"
  identities :: "(string \<times> IdentityData) list"

definition newPassportService :: PassportService where
  "newPassportService = \<lparr> merkleTree = emptyTree, passports = [], identities = [] \<rparr>"



text \<open>
  \<open>PassportService.generateNationalityProof\<close>, with the \<open>proof\<close> field left out as
  above. The target's commitment is computed and not used, as in the source.
\<close>

record NationalityProof =
  natTargetNationality :: string
  natNationalityCommitment :: Field
  natIsValid :: bool

definition generateNationalityProof ::
  "poseidon \<Rightarrow> PassportService \<Rightarrow> string \<Rightarrow> Field \<Rightarrow> string
    \<Rightarrow> service_error + NationalityProof" where
  "generateNationalityProof H svc identityId salt targetNationality =
     (case map_of (identities svc) identityId of
        None \<Rightarrow> Inl IdentityNotFound
      | Some identity \<Rightarrow>
          let nationalityCommitment = serviceStringCommitment H (nationality identity) salt;
              targetCommitment = serviceStringCommitment H targetNationality salt;
              isValid = (toLowerCase (nationality identity) = toLowerCase targetNationality)
          in Inr \<lparr> natTargetNationality = targetNationality,
                    natNationalityCommitment = nationalityCommitment,
                    natIsValid = isValid \<rparr>)"

text \<open>
  \<open>PassportService.registerIdentity\<close>. The two fresh identifiers \<open>uuidv4()\<close> and the
  two random field elements \<open>Field.random()\<close> are arguments. The result is the
  outcome and the service's state after the call.
\<close>

definition registerIdentity ::
  "poseidon \<Rightarrow> PassportService \<Rightarrow> string \<Rightarrow> string \<Rightarrow> Field \<Rightarrow> Field \<Rightarrow> IdentityData
    \<Rightarrow> (service_error + string \<times> PassportCommitment \<times> Field) \<times> PassportService" where
  "registerIdentity H svc newId passportId salt nullifierSecret identity =
     (let nameCommitment = serviceStringCommitment H (fullName identity) salt;
          dobCommitment = createDateCommitment H (year (dateOfBirth identity))
                   (month (dateOfBirth identity)) (day (dateOfBirth identity)) salt;
          nationalityCommitment = serviceStringCommitment H (nationality identity) salt;
          idCommitment = serviceStringCommitment H (idNumber identity) salt;
          identityHash =
            H [nameCommitment, dobCommitment, nationalityCommitment, idCommitment, salt];
          nullifier = H [serviceStringCommitment H (idNumber identity) nullifierSecret,
                         nullifierSecret];
          commitment = H [identityHash, nullifier];
          merkleIndex = length (passports svc)
      in case setLeaf (merkleTree svc) merkleIndex commitment of
           None \<Rightarrow> (Inl IndexOutOfRange, svc)
         | Some tree \<Rightarrow>
             let passportCommitment =
                   \<lparr> pcCommitment = commitment, pcNullifier = nullifier,
                     pcMerkleIndex = merkleIndex \<rparr>
             in (Inr (newId, passportCommitment, salt),
                 svc\<lparr> merkleTree := tree,
                      identities := mapSet newId identity (identities svc),
                      passports := mapSet passportId passportCommitment (passports svc) \<rparr>))"

section \<open>ZkPassport: the contract\<close>

record IdentityAttributes =
  nameCommitment :: Field
  dobCommitment :: Field
  nationalityCommitment :: Field
  idCommitment :: Field
  attributesSalt :: Field

text \<open>\<open>IdentityAttributes.hash\<close>.\<close>

definition identityHash :: "poseidon \<Rightarrow> IdentityAttributes \<Rightarrow> Field" where
  "identityHash H a =
     H [nameCommitment a, dobCommitment a, nationalityCommitment a, idCommitment a, attributesSalt a]"

text \<open>
  The on-chain state of \<open>ZkPassport\<close>. Public keys and signatures are the library's;
  their types are left open, and \<open>Signature.verify\<close> is the parameter \<open>verify\<close> of
  the method that calls it (public key, message, signature).
\<close>

record 'pk ZkPassport =
  passportRoot :: Field
  totalPassports :: Field
  admin :: 'pk
  nullifierRoot :: Field

type_synonym ('pk, 'sig) verifier = "'pk \<Rightarrow> Field list \<Rightarrow> 'sig \<Rightarrow> bool"

text \<open>\<open>ZkPassport.init\<close>; \<open>emptyKey\<close> is the admin field of a fresh account.\<close>

definition init :: "'pk \<Rightarrow> 'pk ZkPassport" where
  "init emptyKey =
     \<lparr> passportRoot = FieldOf 0, totalPassports = FieldOf 0, admin = emptyKey,
       nullifierRoot = FieldOf 0 \<rparr>"

text \<open>\<open>ZkPassport.setAdmin\<close>: the precondition is on the value just read, so it holds.\<close>

definition setAdmin :: "'pk ZkPassport \<Rightarrow> 'pk \<Rightarrow> failure + 'pk ZkPassport" where
  "setAdmin s adminPubKey = Inr (s\<lparr> admin := adminPubKey \<rparr>)"

text \<open>
  \<open>ZkPassport.registerPassport\<close>. The nullifier root is read and required to be the
  value read; nothing else is done with it.
\<close>

definition registerPassport ::
  "poseidon \<Rightarrow> ('pk, 'sig) verifier \<Rightarrow> 'pk ZkPassport \<Rightarrow> IdentityAttributes \<Rightarrow> Field
    \<Rightarrow> MerkleWitness \<Rightarrow> 'sig \<Rightarrow> failure + 'pk ZkPassport" where
  "registerPassport H verify s identityAttributes nullifier witness adminSignature =
     (let adminKey = admin s;
          idHash = identityHash H identityAttributes in
      if \<not> verify adminKey [idHash, nullifier] adminSignature then Inl BadSignature
      else
        let nullifierRootRead = nullifierRoot s;
            passportCommitment = H [idHash, nullifier];
            currentRoot = passportRoot s;
            emptyLeaf = FieldOf 0 in
        if calculateRoot H witness emptyLeaf \<noteq> currentRoot then Inl WitnessRootMismatch
        else
          let newRoot = calculateRoot H witness passportCommitment;
              currentTotal = totalPassports s
          in Inr (s\<lparr> passportRoot := newRoot,
                      totalPassports := fadd currentTotal (FieldOf 1) \<rparr>))"

section \<open>ZkCensus: the contract\<close>

record DemographicData =
  ageBracketF :: Field
  regionCodeF :: Field
  membershipTierF :: Field
  joinTimeBracketF :: Field

text \<open>\<open>DemographicData.hash\<close>.\<close>

definition demographicDataHash :: "poseidon \<Rightarrow> DemographicData \<Rightarrow> Field" where
  "demographicDataHash H d =
     H [ageBracketF d, regionCodeF d, membershipTierF d, joinTimeBracketF d]"

record DemographicAggregates =
  age0to17F :: Field
  age18to25F :: Field
  age26to35F :: Field
  age36to50F :: Field
  age51to65F :: Field
  age65plusF :: Field
  totalF :: Field

text \<open>\<open>DemographicAggregates.hash\<close> and \<open>DemographicAggregates.verifyTotal\<close>.\<close>

definition aggregatesHash :: "poseidon \<Rightarrow> DemographicAggregates \<Rightarrow> Field" where
  "aggregatesHash H a =
     H [age0to17F a, age18to25F a, age26to35F a, age36to50F a, age51to65F a, age65plusF a,
        totalF a]"

definition verifyTotal :: "DemographicAggregates \<Rightarrow> bool" where
  "verifyTotal a =
     (let sum = fadd (fadd (fadd (fadd (fadd (age0to17F a) (age18to25F a)) (age26to35F a))
                  (age36to50F a)) (age51to65F a)) (age65plusF a)
      in sum = totalF a)"

record 'pk ZkCensus =
  participantRoot :: Field
  totalParticipants :: Field
  censusNullifierRoot :: Field
  latestSnapshotHash :: Field
  censusAdmin :: 'pk
  communityId :: Field
  demographicsHash :: Field

text \<open>\<open>ZkCensus.init\<close>; \<open>emptyKey\<close> is the admin field of a fresh account.\<close>

definition censusInit :: "'pk \<Rightarrow> 'pk ZkCensus" where
  "censusInit emptyKey =
     \<lparr> participantRoot = FieldOf 0, totalParticipants = FieldOf 0,
       censusNullifierRoot = FieldOf 0, latestSnapshotHash = FieldOf 0,
       censusAdmin = emptyKey, communityId = FieldOf 0, demographicsHash = FieldOf 0 \<rparr>"

text \<open>
  \<open>ZkCensus.registerParticipant\<close>. \<open>MerkleMapWitness.computeRootAndKeyV2\<close> is the
  library's; it is the parameter \<open>computeRootAndKeyV2\<close>, from a witness and a value
  to the root and the key, or \<open>None\<close> when the library's own assertion on the
  witness fails.
\<close>

definition censusRegisterParticipant ::
  "poseidon \<Rightarrow> ('mw \<Rightarrow> Field \<Rightarrow> (Field \<times> Field) option) \<Rightarrow> 'pk ZkCensus \<Rightarrow> Field \<Rightarrow> Field
    \<Rightarrow> DemographicData \<Rightarrow> MerkleWitness \<Rightarrow> 'mw \<Rightarrow> failure + 'pk ZkCensus" where
  "censusRegisterParticipant H computeRootAndKeyV2 s passportCommitment nullifier demographics
       participantWitness nullifierWitness =
     (let nullifierRoot = censusNullifierRoot s in
      case computeRootAndKeyV2 nullifierWitness (FieldOf 0) of
        None \<Rightarrow> Inl NullifierWitnessInvalid
      | Some (computedNullifierRoot, computedKey) \<Rightarrow>
          if computedNullifierRoot \<noteq> nullifierRoot then Inl NullifierRootMismatch
          else if computedKey \<noteq> nullifier then Inl NullifierKeyMismatch
          else
            let participantEntry =
                  H [passportCommitment, demographicDataHash H demographics, nullifier];
                currentRoot = participantRoot s in
            if calculateRoot H participantWitness (FieldOf 0) \<noteq> currentRoot
            then Inl WitnessRootMismatch
            else
              let newRoot = calculateRoot H participantWitness participantEntry in
              (case computeRootAndKeyV2 nullifierWitness (FieldOf 1) of
                 None \<Rightarrow> Inl NullifierWitnessInvalid
               | Some (newNullifierRoot, _) \<Rightarrow>
                   let currentTotal = totalParticipants s
                   in Inr (s\<lparr> participantRoot := newRoot,
                               censusNullifierRoot := newNullifierRoot,
                               totalParticipants := fadd currentTotal (FieldOf 1) \<rparr>)))"

text \<open>
  What the ledger holds after a transaction that calls one method: the state the
  method returns, or the state before when the method threw.
\<close>

definition applyTransaction :: "'s \<Rightarrow> failure + 's \<Rightarrow> 's" where
  "applyTransaction s outcome = (case outcome of Inl _ \<Rightarrow> s | Inr s' \<Rightarrow> s')"

text \<open>\<open>ZkCensus.createSnapshot\<close>; the timestamp is the field value of the \<open>UInt64\<close>.\<close>

definition createSnapshot ::
  "poseidon \<Rightarrow> 'pk ZkCensus \<Rightarrow> Field \<Rightarrow> DemographicAggregates \<Rightarrow> failure + 'pk ZkCensus" where
  "createSnapshot H s timestamp aggregates =
     (let total = totalParticipants s in
      if totalF aggregates \<noteq> total then Inl TotalMismatch
      else if \<not> verifyTotal aggregates then Inl SumMismatch
      else
        let root = participantRoot s;
            snapshotHash = H [timestamp, total, root, aggregatesHash H aggregates]
        in Inr (s\<lparr> latestSnapshotHash := snapshotHash,
                    demographicsHash := aggregatesHash H aggregates \<rparr>))"

text \<open>\<open>CensusUtils.createCensusNullifier\<close>.\<close>

definition createCensusNullifier :: "poseidon \<Rightarrow> Field \<Rightarrow> Field \<Rightarrow> Field \<Rightarrow> Field" where
  "createCensusNullifier H passportCommitment censusId secret =
     H [passportCommitment, censusId, secret]"

section \<open>CensusService\<close>

record DemographicBrackets =
  ageBracket :: int
  regionCode :: string
  membershipTier :: int
  joinTimeBracket :: int

record DemographicAggregatesData =
  age0to17 :: nat
  age18to25 :: nat
  age26to35 :: nat
  age36to50 :: nat
  age51to65 :: nat
  age65plus :: nat
  total :: nat
  regionDistribution :: "string \<rightharpoonup> nat"
  tierDistribution :: "int \<rightharpoonup> nat"

text \<open>
  A participant's record; its \<open>id\<close> is the key under which the service stores it,
  and the registration date is left out.
\<close>

record CensusParticipant =
  cpPassportCommitment :: string
  cpDemographicHash :: Field
  cpNullifier :: Field
  cpMerkleIndex :: nat

record CensusService =
  participantTree :: MerkleTree
  nullifierMap :: MerkleMap
  participants :: "(string \<times> CensusParticipant) list"
  aggregates :: DemographicAggregatesData

text \<open>\<open>CensusService.initializeAggregates\<close> and the constructor.\<close>

definition initializeAggregates :: DemographicAggregatesData where
  "initializeAggregates =
     \<lparr> age0to17 = 0, age18to25 = 0, age26to35 = 0, age36to50 = 0, age51to65 = 0,
       age65plus = 0, total = 0, regionDistribution = Map.empty,
       tierDistribution = Map.empty \<rparr>"

definition newCensusService :: CensusService where
  "newCensusService =
     \<lparr> participantTree = emptyTree, nullifierMap = emptyMap, participants = [],
       aggregates = initializeAggregates \<rparr>"

text \<open>\<open>CensusService.createDemographicHash\<close>.\<close>

definition createDemographicHash :: "poseidon \<Rightarrow> DemographicBrackets \<Rightarrow> Field" where
  "createDemographicHash H demographics =
     H [FieldOf (ageBracket demographics), hashString H (regionCode demographics),
        FieldOf (membershipTier demographics), FieldOf (joinTimeBracket demographics)]"

text \<open>
  \<open>this.aggregates[brackets[i]]++\<close> for the list
  \<open>['age0to17', 'age18to25', 'age26to35', 'age36to50', 'age51to65', 'age65plus']\<close>.
\<close>

definition incrementBracket :: "nat \<Rightarrow> DemographicAggregatesData \<Rightarrow> DemographicAggregatesData" where
  "incrementBracket i a =
     (if i = 0 then a\<lparr> age0to17 := age0to17 a + 1 \<rparr>
      else if i = 1 then a\<lparr> age18to25 := age18to25 a + 1 \<rparr>
      else if i = 2 then a\<lparr> age26to35 := age26to35 a + 1 \<rparr>
      else if i = 3 then a\<lparr> age36to50 := age36to50 a + 1 \<rparr>
      else if i = 4 then a\<lparr> age51to65 := age51to65 a + 1 \<rparr>
      else if i = 5 then a\<lparr> age65plus := age65plus a + 1 \<rparr>
      else a)"

text \<open>\<open>(m[k] || 0) + 1\<close>.\<close>

definition countOrZero :: "('k \<rightharpoonup> nat) \<Rightarrow> 'k \<Rightarrow> nat" where
  "countOrZero m k = (case m k of None \<Rightarrow> 0 | Some n \<Rightarrow> n)"

text \<open>
  \<open>CensusService.updateAggregates\<close>. The two distributions are held as maps from
  the keys counted so far, which is what the source's plain objects are for a region
  code that names no property of \<open>Object.prototype\<close>; for a code such as
  \<open>toString\<close> the source reads the inherited property in place of 0, and the entry
  of the map is not what the object then holds. The six buckets and \<open>total\<close> do not
  depend on the distributions.
\<close>

definition updateAggregates ::
  "DemographicAggregatesData \<Rightarrow> DemographicBrackets \<Rightarrow> DemographicAggregatesData" where
  "updateAggregates a demographics =
     (let a1 = (if 0 \<le> ageBracket demographics \<and> ageBracket demographics < 6
                then incrementBracket (nat (ageBracket demographics)) a else a);
          a2 = a1\<lparr> regionDistribution := (regionDistribution a1)
                  (regionCode demographics \<mapsto>
                     countOrZero (regionDistribution a1) (regionCode demographics) + 1) \<rparr>;
          a3 = a2\<lparr> tierDistribution := (tierDistribution a2)
                  (membershipTier demographics \<mapsto>
                     countOrZero (tierDistribution a2) (membershipTier demographics) + 1) \<rparr>
      in a3\<lparr> total := total a3 + 1 \<rparr>)"

text \<open>
  What \<open>registerParticipant\<close> gives back: the participant with \<open>success: true\<close>, the
  value with \<open>success: false\<close> and the error \<open>'Already registered'\<close>, or an exception.
\<close>

datatype registration =
    Registered string CensusParticipant
  | AlreadyRegistered
  | Threw service_error

text \<open>
  \<open>CensusService.registerParticipant\<close>. \<open>BigInt\<close> applied to a string is the
  parameter \<open>bigInt\<close> (\<open>None\<close> when it throws a SyntaxError), and the fresh
  identifier \<open>uuidv4()\<close> is the argument \<open>newId\<close>. The result is the outcome and the
  service's state after the call; the state is threaded through the statements in
  the order of the source.
\<close>

definition registerParticipant ::
  "poseidon \<Rightarrow> (string \<Rightarrow> int option) \<Rightarrow> CensusService \<Rightarrow> string \<Rightarrow> string
    \<Rightarrow> DemographicBrackets \<Rightarrow> Field \<Rightarrow> registration \<times> CensusService" where
  "registerParticipant H bigInt svc newId passportCommitment demographics nullifierSecret =
     (case bigInt passportCommitment of
        None \<Rightarrow> (Threw SyntaxError, svc)
      | Some commitmentValue \<Rightarrow>
          let nullifier = H [FieldOf commitmentValue, nullifierSecret] in
          if nullifierMap svc nullifier = FieldOf 1 then (AlreadyRegistered, svc)
          else
            let demographicHash = createDemographicHash H demographics;
                participantEntry = H [FieldOf commitmentValue, demographicHash, nullifier];
                merkleIndex = length (participants svc)
            in case setLeaf (participantTree svc) merkleIndex participantEntry of
                 None \<Rightarrow> (Threw IndexOutOfRange, svc)
               | Some tree \<Rightarrow>
                   let svc1 = svc\<lparr> participantTree := tree \<rparr>;
                       svc2 = svc1\<lparr> nullifierMap := (nullifierMap svc1)(nullifier := FieldOf 1) \<rparr>;
                       participant =
                         \<lparr> cpPassportCommitment = passportCommitment,
                           cpDemographicHash = demographicHash, cpNullifier = nullifier,
                           cpMerkleIndex = merkleIndex \<rparr>;
                       svc3 = svc2\<lparr> participants := mapSet newId participant (participants svc2) \<rparr>;
                       svc4 = svc3\<lparr> aggregates := updateAggregates (aggregates svc3) demographics \<rparr>
                   in (Registered newId participant, svc4))"

text \<open>\<open>CensusService.getPopulation\<close>.\<close>

definition getPopulation :: "CensusService \<Rightarrow> nat" where
  "getPopulation svc = length (participants svc)"

text \<open>
  A client's calls of \<open>registerParticipant\<close>, one after the other on the same
  service: the outcomes in the order of the calls, and the state after the last.
\<close>

record RegisterCall =
  callId :: string
  callCommitment :: string
  callDemographics :: DemographicBrackets
  callSecret :: Field

fun registerAll ::
  "poseidon \<Rightarrow> (string \<Rightarrow> int option) \<Rightarrow> CensusService \<Rightarrow> RegisterCall list
    \<Rightarrow> registration list \<times> CensusService" where
  "registerAll H bigInt svc [] = ([], svc)"
| "registerAll H bigInt svc (c # cs) =
     (let (r, svc') = registerParticipant H bigInt svc (callId c) (callCommitment c)
                        (callDemographics c) (callSecret c);
          (rs, svc'') = registerAll H bigInt svc' cs
      in (r # rs, svc''))"

definition isRegistered :: "registration \<Rightarrow> bool" where
  "isRegistered r = (case r of Registered _ _ \<Rightarrow> True | _ \<Rightarrow> False)"

text \<open>The sum of the six age buckets.\<close>

definition bucketSum :: "DemographicAggregatesData \<Rightarrow> nat" where
  "bucketSum a = age0to17 a + age18to25 a + age26to35 a + age36to50 a + age51to65 a + age65plus a"

section \<open>Sequences of contract calls\<close>

text \<open>
  The calls that change the state of a deployed \<open>ZkPassport\<close>, and the state after
  a sequence of transactions of one call each, a failing one leaving the state as
  it was.
\<close>

datatype ('pk, 'sig) passportCall =
    SetAdmin 'pk
  | RegisterPassport IdentityAttributes Field MerkleWitness 'sig

definition passportStep ::
  "poseidon \<Rightarrow> ('pk, 'sig) verifier \<Rightarrow> 'pk ZkPassport \<Rightarrow> ('pk, 'sig) passportCall
    \<Rightarrow> 'pk ZkPassport" where
  "passportStep H verify s c =
     (case c of
        SetAdmin k \<Rightarrow> applyTransaction s (setAdmin s k)
      | RegisterPassport a n w g \<Rightarrow> applyTransaction s (registerPassport H verify s a n w g))"

definition passportRun ::
  "poseidon \<Rightarrow> ('pk, 'sig) verifier \<Rightarrow> 'pk ZkPassport \<Rightarrow> ('pk, 'sig) passportCall list
    \<Rightarrow> 'pk ZkPassport" where
  "passportRun H verify s cs = foldl (passportStep H verify) s cs"

section \<open>Notions used in the statements\<close>

text \<open>Two different inputs on which the hash gives the same output.\<close>

definition collides :: "poseidon \<Rightarrow> Field list \<Rightarrow> Field list \<Rightarrow> bool" where
  "collides H xs ys = (xs \<noteq> ys \<and> H xs = H ys)"

text \<open>A byte string that is empty or whose last byte is not the NUL byte.\<close>

definition noTrailingNul :: "string \<Rightarrow> bool" where
  "noTrailingNul bs = (bs = [] \<or> last bs \<noteq> CHR 0x00)"

text \<open>An age bracket that names one of the six buckets.\<close>

definition validBracket :: "DemographicBrackets \<Rightarrow> bool" where
  "validBracket d = (0 \<le> ageBracket d \<and> ageBracket d < 6)"

text \<open>The big-endian value of a byte string, and a chunk filled up to 31 bytes.\<close>

definition beValue :: "string \<Rightarrow> nat" where
  "beValue bs = foldl (\<lambda>a c. 256 * a + of_char c) 0 bs"

definition pad31 :: "string \<Rightarrow> string" where
  "pad31 bs = bs @ replicate (31 - length bs) (CHR 0x00)"

section \<open>The nullifier formulas of the specification\<close>

text \<open>
  The two formulas of \<open>deriveNullifier\<close>, in the words of the specification: the
  identity variant and the census variant.
\<close>

definition spec_identity_nullifier :: "poseidon \<Rightarrow> string \<Rightarrow> Field \<Rightarrow> Field" where
  "spec_identity_nullifier H stableId secret = H [createStringCommitment H stableId secret, secret]"

definition spec_census_nullifier :: "poseidon \<Rightarrow> Field \<Rightarrow> Field \<Rightarrow> Field \<Rightarrow> Field" where
  "spec_census_nullifier H passportCommitment contextId secret =
     H [passportCommitment, contextId, secret]"

section \<open>Stand-ins for the library, for concrete instances\<close>

text \<open>
  The theorems below hold for every hash, signature check and \<open>BigInt\<close>. Where a
  theorem is applied to a concrete input, these simple functions take the place of
  the library's: a hash that adds its inputs (under which the root of a tree is the
  sum of its leaves), a signature that is the message it signs, and \<open>BigInt\<close> on
  strings of decimal digits.
\<close>

definition sumHash :: poseidon where
  "sumHash xs = FieldOf (sum_list (map toBigInt xs))"

definition messageVerify :: "(nat, Field list) verifier" where
  "messageVerify k message signature = (signature = message)"

text \<open>
  A witness of a key in a map under \<open>sumHash\<close>: the sum of the other entries, and
  the key. The root for a value is that sum plus the value.
\<close>

definition sumRootAndKey :: "Field \<times> Field \<Rightarrow> Field \<Rightarrow> (Field \<times> Field) option" where
  "sumRootAndKey w v = Some (sumHash [fst w, v], snd w)"

definition decimalBigInt :: "string \<Rightarrow> int option" where
  "decimalBigInt s =
     (if s \<noteq> [] \<and> list_all (\<lambda>c. (48::nat) \<le> of_char c \<and> of_char c \<le> (57::nat)) s
      then Some (int (foldl (\<lambda>a c. 10 * a + (of_char c - 48)) 0 s))
      else None)"

text \<open>
  Two sets of identity attributes, and the witness of the first leaf of a tree all of
  whose leaves are \<open>Field(0)\<close>, whose siblings under \<open>sumHash\<close> are all \<open>Field(0)\<close>.
\<close>

definition attributesA :: IdentityAttributes where
  "attributesA =
     \<lparr> nameCommitment = FieldOf 1, dobCommitment = FieldOf 2, nationalityCommitment = FieldOf 3,
       idCommitment = FieldOf 4, attributesSalt = FieldOf 5 \<rparr>"

definition attributesB :: IdentityAttributes where
  "attributesB =
     \<lparr> nameCommitment = FieldOf 10, dobCommitment = FieldOf 2, nationalityCommitment = FieldOf 3,
       idCommitment = FieldOf 4, attributesSalt = FieldOf 5 \<rparr>"

definition firstLeafWitness :: MerkleWitness where
  "firstLeafWitness = replicate 19 (True, FieldOf 0)"

text \<open>
  Demographics with the age brackets 0 and 5, which name a bucket, and 7, which names
  none, and calls of \<open>registerParticipant\<close> that present them.
\<close>

definition demographicsYoung :: DemographicBrackets where
  "demographicsYoung =
     \<lparr> ageBracket = 0, regionCode = ''SG'', membershipTier = 1, joinTimeBracket = 0 \<rparr>"

definition demographicsOld :: DemographicBrackets where
  "demographicsOld =
     \<lparr> ageBracket = 5, regionCode = ''MY'', membershipTier = 1, joinTimeBracket = 0 \<rparr>"

definition demographicsOutOfRange :: DemographicBrackets where
  "demographicsOutOfRange =
     \<lparr> ageBracket = 7, regionCode = ''SG'', membershipTier = 1, joinTimeBracket = 0 \<rparr>"

definition callYoung :: RegisterCall where
  "callYoung =
     \<lparr> callId = ''p1'', callCommitment = ''12345'', callDemographics = demographicsYoung,
       callSecret = FieldOf 7 \<rparr>"

definition callOld :: RegisterCall where
  "callOld =
     \<lparr> callId = ''p2'', callCommitment = ''12345'', callDemographics = demographicsOld,
       callSecret = FieldOf 8 \<rparr>"

definition callOutOfRange :: RegisterCall where
  "callOutOfRange =
     \<lparr> callId = ''p1'', callCommitment = ''12345'', callDemographics = demographicsOutOfRange,
       callSecret = FieldOf 7 \<rparr>"

text \<open>Demographic data of the contract, with a region code 3.\<close>

definition demographicDataA :: DemographicData where
  "demographicDataA =
     \<lparr> ageBracketF = FieldOf 0, regionCodeF = FieldOf 3, membershipTierF = FieldOf 1,
       joinTimeBracketF = FieldOf 0 \<rparr>"

section \<open>Facts about field elements\<close>

lemma toBigInt_FieldOf: "toBigInt (FieldOf x) = x mod fieldOrder"
  by transfer simp

lemma toBigInt_fsub: "toBigInt (fsub x y) = (toBigInt x - toBigInt y) mod fieldOrder"
  by transfer simp

lemma toBigInt_fadd: "toBigInt (fadd x y) = (toBigInt x + toBigInt y) mod fieldOrder"
  by transfer simp

lemma toBigInt_range: "0 \<le> toBigInt x \<and> toBigInt x < fieldOrder"
  by transfer simp

lemma toBigInt_inject: "toBigInt x = toBigInt y \<longleftrightarrow> x = y"
  by transfer simp

lemma FieldOf_eq_iff: "FieldOf x = FieldOf y \<longleftrightarrow> x mod fieldOrder = y mod fieldOrder"
  by transfer simp

lemma FieldOf_toBigInt: "FieldOf (toBigInt x) = x"
  by transfer simp

lemma fadd_FieldOf: "fadd (FieldOf x) (FieldOf y) = FieldOf (x + y)"
  by transfer (simp add: mod_add_eq)

lemma FieldOf_zero_neq_one: "FieldOf 0 \<noteq> FieldOf 1"
  by (simp add: FieldOf_eq_iff fieldOrder_def)

lemma sumHash_FieldOf2: "sumHash [FieldOf x, FieldOf y] = FieldOf (x + y)"
  by (simp add: sumHash_def toBigInt_FieldOf FieldOf_eq_iff mod_add_eq)

lemma sumHash_zero_right: "sumHash [x, FieldOf 0] = x"
  by (simp add: sumHash_def toBigInt_FieldOf FieldOf_toBigInt fieldOrder_def)

lemma sumHash_zero_left: "sumHash [FieldOf 0, x] = x"
  by (simp add: sumHash_def toBigInt_FieldOf FieldOf_toBigInt fieldOrder_def)

lemma calculateRoot_Nil: "calculateRoot H [] leaf = leaf"
  by (simp add: calculateRoot_def)

lemma calculateRoot_Cons:
  "calculateRoot H ((isLeft, sibling) # w) leaf =
     calculateRoot H w (H (if isLeft then [leaf, sibling] else [sibling, leaf]))"
  by (simp add: calculateRoot_def)

lemma calculateRoot_sumHash_zeros:
  "calculateRoot sumHash (replicate k (b, FieldOf 0)) leaf = leaf"
  by (induction k arbitrary: leaf)
     (simp_all add: calculateRoot_Nil calculateRoot_Cons sumHash_zero_right sumHash_zero_left)

section \<open>Facts about the string encoding\<close>

lemma hexValue_hexDigit: "n < 16 \<Longrightarrow> hexValue (hexDigit n) = n"
  by (auto simp: hexValue_def hexDigit_def Let_def)

lemma foldl_byte: "foldl (\<lambda>a c. 16 * a + hexValue c) a (padStart 2 (CHR ''0'') (toString16 (of_char b)))
   = 256 * a + of_char b"
proof -
  have b: "(of_char b :: nat) < 256" by simp
  have z: "hexValue (CHR ''0'') = 0" by (simp add: hexValue_def)
  show ?thesis
  proof (cases "(of_char b :: nat) < 16")
    case True
    then show ?thesis by (simp add: padStart_def toString16_def hexValue_hexDigit z)
  next
    case False
    have "(of_char b :: nat) div 16 < 16" using b by (simp add: less_mult_imp_div_less)
    moreover have "(of_char b :: nat) mod 16 < 16" by simp
    ultimately show ?thesis using False
      by (simp add: padStart_def toString16_def hexValue_hexDigit)
  qed
qed

lemma foldl_chunkHex:
  "foldl (\<lambda>a c. 16 * a + hexValue c) a (chunkHex bs) = foldl (\<lambda>a c. 256 * a + of_char c) a bs"
  by (induction bs arbitrary: a) (simp_all add: chunkHex_def foldl_byte)

lemma foldl_zeros:
  "foldl (\<lambda>a c. 16 * a + hexValue c) a (replicate k (CHR ''0'')) = a * 16 ^ k"
  by (induction k arbitrary: a) (simp_all add: hexValue_def)

lemma length_chunkHex: "length (chunkHex bs) = 2 * length bs"
  by (induction bs) (simp_all add: chunkHex_def padStart_def toString16_def)

lemma foldl_nuls:
  "foldl (\<lambda>a c. 256 * a + of_char c) (a::nat) (replicate k (CHR 0x00)) = a * 256 ^ k"
  by (induction k arbitrary: a) simp_all

lemma BigIntHex_chunk:
  "length bs \<le> 31 \<Longrightarrow> BigIntHex (padEnd 62 (CHR ''0'') (chunkHex bs)) = int (beValue (pad31 bs))"
proof -
  assume len: "length bs \<le> 31"
  have "(16::nat) ^ (62 - 2 * length bs) = 256 ^ (31 - length bs)"
  proof -
    have "62 - 2 * length bs = 2 * (31 - length bs)" by simp
    then have "(16::nat) ^ (62 - 2 * length bs) = (16 ^ 2) ^ (31 - length bs)"
      by (simp add: power_mult)
    then show ?thesis by simp
  qed
  then show ?thesis
    by (simp add: BigIntHex_def padEnd_def beValue_def pad31_def foldl_chunkHex foldl_zeros
        foldl_nuls length_chunkHex)
qed

lemma beValue_snoc: "beValue (bs @ [c]) = 256 * beValue bs + of_char c"
  by (simp add: beValue_def)

lemma beValue_bound: "beValue bs < 256 ^ length bs"
proof (induction bs rule: rev_induct)
  case Nil
  then show ?case by (simp add: beValue_def)
next
  case (snoc c bs)
  define X :: nat where "X = 256 ^ length bs"
  define v :: nat where "v = beValue bs"
  define d :: nat where "d = of_char c"
  have "d < 256" by (simp add: d_def)
  moreover from snoc have "v < X" by (simp add: X_def v_def)
  ultimately have "256 * v + d < 256 * X" by arith
  then show ?case by (simp add: beValue_snoc X_def v_def d_def)
qed

lemma beValue_inj: "length xs = length ys \<Longrightarrow> beValue xs = beValue ys \<Longrightarrow> xs = ys"
proof (induction xs arbitrary: ys rule: rev_induct)
  case Nil
  then show ?case by simp
next
  case (snoc c xs)
  then obtain d zs where ys: "ys = zs @ [d]"
    by (cases ys rule: rev_cases) auto
  from snoc.prems ys have eq: "256 * beValue xs + of_char c = 256 * beValue zs + of_char d"
    by (simp add: beValue_snoc)
  have c: "(of_char c :: nat) < 256" and d: "(of_char d :: nat) < 256" by simp_all
  from eq have "(256 * beValue xs + of_char c) div 256 = (256 * beValue zs + of_char d) div 256"
    by simp
  with c d have v: "beValue xs = beValue zs" by simp
  with eq have "(of_char c :: nat) = of_char d" by simp
  then have "c = d" by simp
  moreover from snoc.prems ys have "length xs = length zs" by simp
  with v snoc.IH have "xs = zs" by blast
  ultimately show ?case using ys by simp
qed

lemma length_pad31: "length bs \<le> 31 \<Longrightarrow> length (pad31 bs) = 31"
  by (simp add: pad31_def)

lemma chunkField_eq_pad31:
  assumes "length xs \<le> 31" "length ys \<le> 31" "chunkField xs = chunkField ys"
  shows "pad31 xs = pad31 ys"
proof -
  have bound: "int (beValue (pad31 zs)) < fieldOrder" if "length zs \<le> 31" for zs
  proof -
    have "beValue (pad31 zs) < 256 ^ 31"
      using beValue_bound [of "pad31 zs"] that by (simp add: length_pad31)
    then have "int (beValue (pad31 zs)) < int (256 ^ 31)" by (simp only: of_nat_less_iff)
    then show ?thesis by (simp add: fieldOrder_def)
  qed
  from assms have "int (beValue (pad31 xs)) mod fieldOrder = int (beValue (pad31 ys)) mod fieldOrder"
    by (simp add: chunkField_def BigIntHex_chunk FieldOf_eq_iff)
  with bound [OF assms(1)] bound [OF assms(2)]
  have "beValue (pad31 xs) = beValue (pad31 ys)" by simp
  with assms show ?thesis by (intro beValue_inj) (simp_all add: length_pad31)
qed

lemma strip_nuls:
  assumes "xs @ replicate m (CHR 0x00) = ys @ replicate n (CHR 0x00)"
    and "noTrailingNul xs" "noTrailingNul ys"
  shows "xs = ys"
proof -
  have key: "us = vs" if eq: "us @ replicate i (CHR 0x00) = vs @ replicate j (CHR 0x00)"
    and us: "noTrailingNul us" and vs: "noTrailingNul vs" and le: "length us \<le> length vs"
    for us vs :: string and i j
  proof -
    from eq le obtain ws where ws: "vs = us @ ws"
      by (metis append_eq_append_conv_if append_take_drop_id)
    with eq have "replicate i (CHR 0x00) = ws @ replicate j (CHR 0x00)" by simp
    then have "set (replicate i (CHR 0x00)) = set (ws @ replicate j (CHR 0x00))" by simp
    then have "set ws \<subseteq> {CHR 0x00}" by (auto split: if_splits)
    have "ws = []"
    proof (rule ccontr)
      assume "ws \<noteq> []"
      then have "last vs = last ws" and "last ws \<in> set ws" using ws by simp_all
      with \<open>set ws \<subseteq> {CHR 0x00}\<close> have "last vs = CHR 0x00" by auto
      moreover from ws \<open>ws \<noteq> []\<close> have "vs \<noteq> []" by simp
      ultimately show False using vs by (simp add: noTrailingNul_def)
    qed
    with ws show ?thesis by simp
  qed
  show ?thesis
  proof (cases "length xs \<le> length ys")
    case True
    with assms show ?thesis by (rule key)
  next
    case False
    then have "length ys \<le> length xs" by simp
    with assms(1) [symmetric] assms(3) assms(2) have "ys = xs" by (rule key)
    then show ?thesis by simp
  qed
qed

lemma serviceFields_Nil: "serviceFields [] = []"
  by (simp add: serviceFields.simps)

lemma serviceFields_Cons:
  "bs \<noteq> [] \<Longrightarrow> serviceFields bs = chunkField (take 31 bs) # serviceFields (drop 31 bs)"
  by (subst serviceFields.simps) simp

lemma serviceFields_Nil_iff: "serviceFields bs = [] \<longleftrightarrow> bs = []"
  by (cases "bs = []") (simp_all add: serviceFields_Nil serviceFields_Cons)

lemma serviceFields_inj:
  "serviceFields xs = serviceFields ys \<Longrightarrow> noTrailingNul xs \<Longrightarrow> noTrailingNul ys \<Longrightarrow> xs = ys"
proof (induction xs arbitrary: ys rule: serviceFields.induct)
  case (1 xs)
  show ?case
  proof (cases "xs = []")
    case True
    with "1.prems"(1) show ?thesis
      using serviceFields_Nil_iff [of ys] by (simp add: serviceFields_Nil)
  next
    case False
    with "1.prems"(1) have ys: "ys \<noteq> []"
      using serviceFields_Nil_iff [of xs] by (auto simp: serviceFields_Nil)
    from False ys "1.prems"(1)
    have hd: "chunkField (take 31 xs) = chunkField (take 31 ys)"
      and tl: "serviceFields (drop 31 xs) = serviceFields (drop 31 ys)"
      by (simp_all add: serviceFields_Cons)
    have nx: "noTrailingNul (drop 31 xs)" using "1.prems"(2) False
      by (auto simp: noTrailingNul_def)
    have ny: "noTrailingNul (drop 31 ys)" using "1.prems"(3) ys
      by (auto simp: noTrailingNul_def)
    from "1.IH" [OF False tl nx ny] have dr: "drop 31 xs = drop 31 ys" .
    from hd have pads: "pad31 (take 31 xs) = pad31 (take 31 ys)"
      by (intro chunkField_eq_pad31) simp_all
    have tk: "take 31 xs = take 31 ys"
    proof (cases "drop 31 xs = []")
      case True
      with dr have "take 31 xs = xs" "take 31 ys = ys" by simp_all
      with pads have "xs @ replicate (31 - length xs) (CHR 0x00)
          = ys @ replicate (31 - length ys) (CHR 0x00)"
        by (simp add: pad31_def)
      then have "xs = ys" using "1.prems"(2,3) by (rule strip_nuls)
      then show ?thesis by simp
    next
      case False
      then have "length (take 31 xs) = 31" by simp
      moreover from False dr have "drop 31 ys \<noteq> []" by simp
      then have "length (take 31 ys) = 31" by simp
      ultimately have "length (take 31 xs) = 31" "length (take 31 ys) = 31" by blast+
      with pads show ?thesis by (simp add: pad31_def)
    qed
    from tk dr show ?thesis by (metis append_take_drop_id)
  qed
qed

lemma chunkHex_Nil_iff: "chunkHex bs = [] \<longleftrightarrow> bs = []"
  using length_chunkHex [of bs] by (cases bs) auto

lemma utilsFields_eq: "utilsFields bs = serviceFields bs"
proof (induction bs rule: serviceFields.induct)
  case (1 bs)
  show ?case
  proof (cases "bs = []")
    case True
    then show ?thesis by (simp add: utilsFields.simps serviceFields_Nil)
  next
    case False
    then have "chunkHex (take 31 bs) \<noteq> []" by (simp add: chunkHex_Nil_iff)
    with False "1.IH" show ?thesis
      by (subst utilsFields.simps) (simp add: serviceFields_Cons)
  qed
qed

lemma serviceFields_inj_length:
  "length xs = length ys \<Longrightarrow> serviceFields xs = serviceFields ys \<Longrightarrow> xs = ys"
proof (induction xs arbitrary: ys rule: serviceFields.induct)
  case (1 xs)
  show ?case
  proof (cases "xs = []")
    case True
    with "1.prems"(1) show ?thesis by simp
  next
    case False
    with "1.prems"(1) have ys: "ys \<noteq> []" by auto
    from False ys "1.prems"(2)
    have hd: "chunkField (take 31 xs) = chunkField (take 31 ys)"
      and tl: "serviceFields (drop 31 xs) = serviceFields (drop 31 ys)"
      by (simp_all add: serviceFields_Cons)
    from "1.prems"(1) have "length (drop 31 xs) = length (drop 31 ys)" by simp
    from "1.IH" [OF False this tl] have dr: "drop 31 xs = drop 31 ys" .
    from hd have "pad31 (take 31 xs) = pad31 (take 31 ys)"
      by (intro chunkField_eq_pad31) simp_all
    moreover from "1.prems"(1) have "length (take 31 xs) = length (take 31 ys)" by simp
    ultimately have tk: "take 31 xs = take 31 ys" by (simp add: pad31_def)
    from tk dr show ?thesis by (metis append_take_drop_id)
  qed
qed

lemma chunkField_zero_iff:
  assumes "length bs \<le> 31" "bs \<noteq> []" "noTrailingNul bs"
  shows "chunkField bs \<noteq> FieldOf 0"
proof
  assume z: "chunkField bs = FieldOf 0"
  have "chunkField (replicate 31 (CHR 0x00)) = FieldOf 0"
    by (simp add: chunkField_def BigIntHex_chunk pad31_def beValue_def foldl_nuls)
  with z have "chunkField bs = chunkField (replicate 31 (CHR 0x00))" by simp
  with assms(1) have "pad31 bs = pad31 (replicate 31 (CHR 0x00))"
    by (intro chunkField_eq_pad31) simp_all
  then have "bs @ replicate (31 - length bs) (CHR 0x00) = replicate 31 (CHR 0x00)"
    by (simp add: pad31_def)
  then have "set (bs @ replicate (31 - length bs) (CHR 0x00)) = set (replicate 31 (CHR 0x00))"
    by simp
  then have "set bs \<subseteq> {CHR 0x00}" by auto
  moreover from assms(2) have "last bs \<in> set bs" by simp
  ultimately have "last bs = CHR 0x00" by auto
  with assms(2,3) show False by (simp add: noTrailingNul_def)
qed

lemma orZero_serviceFields_inj:
  assumes "orZero (serviceFields xs) = orZero (serviceFields ys)"
    and "noTrailingNul xs" "noTrailingNul ys"
  shows "xs = ys"
proof -
  have single: False
    if e: "us = []" and n: "vs \<noteq> []" and nt: "noTrailingNul vs"
      and eq: "orZero (serviceFields us) = orZero (serviceFields vs)" for us vs
  proof -
    from e n eq have one: "serviceFields vs = [FieldOf 0]"
      by (simp add: orZero_def serviceFields_Nil serviceFields_Nil_iff)
    with n have c: "chunkField (take 31 vs) = FieldOf 0" and d: "serviceFields (drop 31 vs) = []"
      by (simp_all add: serviceFields_Cons)
    from d have "drop 31 vs = []" by (simp add: serviceFields_Nil_iff)
    then have "take 31 vs = vs" "length vs \<le> 31" by simp_all
    with c n nt chunkField_zero_iff [of vs] show False by simp
  qed
  show ?thesis
  proof (cases "xs = []")
    case True
    show ?thesis
    proof (cases "ys = []")
      case True
      with \<open>xs = []\<close> show ?thesis by simp
    next
      case False
      with True assms single [of xs ys] show ?thesis by blast
    qed
  next
    case False
    show ?thesis
    proof (cases "ys = []")
      case True
      with False assms single [of ys xs] show ?thesis by simp
    next
      case ny: False
      with False assms(1) have "serviceFields xs = serviceFields ys"
        by (simp add: orZero_def serviceFields_Nil_iff)
      from this assms(2,3) show ?thesis by (rule serviceFields_inj)
    qed
  qed
qed

section \<open>Facts about the census service\<close>

lemma in_keys: "(k, v) \<in> set kvs \<Longrightarrow> k \<in> fst ` set kvs"
  by force

lemma length_mapSet:
  "length (mapSet k v kvs) = (if k \<in> fst ` set kvs then length kvs else Suc (length kvs))"
  by (induction kvs) (auto dest: in_keys)

lemma keys_mapSet: "fst ` set (mapSet k v kvs) = insert k (fst ` set kvs)"
proof (induction kvs)
  case Nil
  then show ?case by simp
next
  case (Cons x kvs)
  obtain a b where x: "x = (a, b)" by (cases x)
  show ?case
  proof (cases "k = a")
    case True
    with x show ?thesis by simp
  next
    case False
    with x have "fst ` set (mapSet k v (x # kvs)) = insert a (fst ` set (mapSet k v kvs))"
      by simp
    also have "\<dots> = insert a (insert k (fst ` set kvs))" by (simp only: Cons.IH)
    also have "\<dots> = insert k (fst ` set (x # kvs))" using x by (simp add: insert_commute)
    finally show ?thesis .
  qed
qed

text \<open>The four ways a call of \<open>registerParticipant\<close> ends.\<close>

lemma registerParticipant_cases:
  "registerParticipant H bigInt svc newId pc d secret =
     (case bigInt pc of
        None \<Rightarrow> (Threw SyntaxError, svc)
      | Some v \<Rightarrow>
          if nullifierMap svc (H [FieldOf v, secret]) = FieldOf 1 then (AlreadyRegistered, svc)
          else if leafCount \<le> length (participants svc) then (Threw IndexOutOfRange, svc)
          else
            (Registered newId
               \<lparr> cpPassportCommitment = pc, cpDemographicHash = createDemographicHash H d,
                 cpNullifier = H [FieldOf v, secret],
                 cpMerkleIndex = length (participants svc) \<rparr>,
             svc\<lparr> participantTree := (participantTree svc)
                    (length (participants svc) :=
                       H [FieldOf v, createDemographicHash H d, H [FieldOf v, secret]]),
                  nullifierMap := (nullifierMap svc)(H [FieldOf v, secret] := FieldOf 1),
                  participants := mapSet newId
                    \<lparr> cpPassportCommitment = pc, cpDemographicHash = createDemographicHash H d,
                      cpNullifier = H [FieldOf v, secret],
                      cpMerkleIndex = length (participants svc) \<rparr> (participants svc),
                  aggregates := updateAggregates (aggregates svc) d \<rparr>))"
  by (simp add: registerParticipant_def setLeaf_def Let_def split: option.splits)

lemma registerParticipant_failed:
  "\<not> isRegistered (fst (registerParticipant H bigInt svc newId pc d secret)) \<Longrightarrow>
     snd (registerParticipant H bigInt svc newId pc d secret) = svc"
  by (simp add: registerParticipant_cases isRegistered_def split: option.splits if_splits)

lemma registerParticipant_registered:
  "isRegistered (fst (registerParticipant H bigInt svc newId pc d secret)) \<Longrightarrow>
     aggregates (snd (registerParticipant H bigInt svc newId pc d secret))
       = updateAggregates (aggregates svc) d"
  by (simp add: registerParticipant_cases isRegistered_def split: option.splits if_splits)

lemma incrementBracket_total: "total (incrementBracket i a) = total a"
  by (simp add: incrementBracket_def)

lemma incrementBracket_bucketSum:
  "i < 6 \<Longrightarrow> bucketSum (incrementBracket i a) = Suc (bucketSum a)"
  by (simp add: incrementBracket_def bucketSum_def)

lemma updateAggregates_total: "total (updateAggregates a d) = Suc (total a)"
  by (simp add: updateAggregates_def Let_def incrementBracket_total)

lemma updateAggregates_bucketSum:
  "bucketSum (updateAggregates a d) = (if validBracket d then Suc (bucketSum a) else bucketSum a)"
proof (cases "validBracket d")
  case True
  then have "nat (ageBracket d) < 6" by (simp add: validBracket_def nat_less_iff)
  then have "bucketSum (incrementBracket (nat (ageBracket d)) a) = Suc (bucketSum a)"
    by (rule incrementBracket_bucketSum)
  with True show ?thesis
    by (simp add: updateAggregates_def Let_def validBracket_def bucketSum_def)
next
  case False
  then show ?thesis
    by (auto simp: updateAggregates_def Let_def validBracket_def bucketSum_def)
qed

text \<open>
  The number of outcomes that are registrations, and of those whose call presented
  an age bracket that names a bucket.
\<close>

lemma registerAll_counts:
  "registerAll H bigInt svc cs = (rs, svc') \<Longrightarrow>
     length rs = length cs
     \<and> total (aggregates svc') = total (aggregates svc) + length (filter isRegistered rs)
     \<and> bucketSum (aggregates svc') = bucketSum (aggregates svc)
         + length (filter (\<lambda>(c, r). isRegistered r \<and> validBracket (callDemographics c))
             (zip cs rs))"
proof (induction cs arbitrary: svc rs svc')
  case Nil
  then show ?case by simp
next
  case (Cons c cs)
  obtain r svc1 where step:
    "registerParticipant H bigInt svc (callId c) (callCommitment c) (callDemographics c)
       (callSecret c) = (r, svc1)"
    by (cases "registerParticipant H bigInt svc (callId c) (callCommitment c)
       (callDemographics c) (callSecret c)")
  obtain rs1 svc2 where rest: "registerAll H bigInt svc1 cs = (rs1, svc2)"
    by (cases "registerAll H bigInt svc1 cs")
  from Cons.prems step rest have out: "rs = r # rs1" "svc' = svc2" by simp_all
  note ih = Cons.IH [OF rest]
  show ?case
  proof (cases "isRegistered r")
    case True
    with step have "aggregates svc1 = updateAggregates (aggregates svc) (callDemographics c)"
      using registerParticipant_registered
        [of H bigInt svc "callId c" "callCommitment c" "callDemographics c" "callSecret c"]
      by simp
    with ih out True show ?thesis
      by (simp add: updateAggregates_total updateAggregates_bucketSum)
  next
    case False
    with step have "svc1 = svc"
      using registerParticipant_failed
        [of H bigInt svc "callId c" "callCommitment c" "callDemographics c" "callSecret c"]
      by simp
    with ih out False show ?thesis by simp
  qed
qed

lemma decimalBigInt_12345: "decimalBigInt ''12345'' = Some 12345"
  by (simp add: decimalBigInt_def)

lemma new_service_unused: "nullifierMap newCensusService n \<noteq> FieldOf 1"
  by (simp add: newCensusService_def emptyMap_def FieldOf_zero_neq_one)

lemma new_service_population: "participants newCensusService = []"
  by (simp add: newCensusService_def)

lemma new_service_aggregates:
  "total (aggregates newCensusService) = 0" "bucketSum (aggregates newCensusService) = 0"
  by (simp_all add: newCensusService_def initializeAggregates_def bucketSum_def)

section \<open>Registration of a passport and the nullifier\<close>

lemma registerPassport_success_iff:
  "(\<exists>s'. registerPassport H verify s a n w g = Inr s')
   \<longleftrightarrow> verify (admin s) [identityHash H a, n] g \<and> calculateRoot H w (FieldOf 0) = passportRoot s"
  by (simp add: registerPassport_def Let_def)

lemma registerPassport_result:
  "registerPassport H verify s a n w g = Inr s' \<Longrightarrow>
     s' = s\<lparr> passportRoot := calculateRoot H w (H [identityHash H a, n]),
            totalPassports := fadd (totalPassports s) (FieldOf 1) \<rparr>"
  by (simp add: registerPassport_def Let_def split: if_splits)

lemma identityHash_sum_A: "identityHash sumHash attributesA = FieldOf 15"
  by (simp add: identityHash_def attributesA_def sumHash_def toBigInt_FieldOf FieldOf_eq_iff
      fieldOrder_def)

lemma identityHash_sum_B: "identityHash sumHash attributesB = FieldOf 24"
  by (simp add: identityHash_def attributesB_def sumHash_def toBigInt_FieldOf FieldOf_eq_iff
      fieldOrder_def)

lemma first_registration:
  "registerPassport sumHash messageVerify (init 0) attributesA (FieldOf 7) firstLeafWitness
     [FieldOf 15, FieldOf 7]
   = Inr \<lparr> passportRoot = FieldOf 22, totalPassports = FieldOf 1, admin = 0,
           nullifierRoot = FieldOf 0 \<rparr>"
  by (simp add: registerPassport_def init_def messageVerify_def identityHash_sum_A
      firstLeafWitness_def calculateRoot_sumHash_zeros sumHash_FieldOf2 fadd_FieldOf)

text \<open>
  C1. \<open>ZkPassport.registerPassport\<close> has no check of the nullifier against the
  nullifier root, so a nullifier with which a registration has succeeded is accepted
  again: after a successful registration with the nullifier \<open>n\<close>, a second call with
  the same \<open>n\<close>, any attributes, an admin signature over the new identity hash and
  \<open>n\<close>, and a witness of an empty leaf under the new root succeeds, and the passport
  count has grown by two.
\<close>

theorem registerPassport_accepts_used_nullifier:
  assumes "registerPassport H verify s a1 n w1 g1 = Inr s1"
    and "verify (admin s1) [identityHash H a2, n] g2"
    and "calculateRoot H w2 (FieldOf 0) = passportRoot s1"
  shows "\<exists>s2. registerPassport H verify s1 a2 n w2 g2 = Inr s2
           \<and> totalPassports s2 = fadd (fadd (totalPassports s) (FieldOf 1)) (FieldOf 1)
           \<and> nullifierRoot s2 = nullifierRoot s"
proof -
  from assms(2,3) obtain s2 where s2: "registerPassport H verify s1 a2 n w2 g2 = Inr s2"
    using registerPassport_success_iff [of H verify s1 a2 n w2 g2] by blast
  from registerPassport_result [OF assms(1)] registerPassport_result [OF s2]
  have "totalPassports s2 = fadd (fadd (totalPassports s) (FieldOf 1)) (FieldOf 1)"
    and "nullifierRoot s2 = nullifierRoot s"
    by simp_all
  with s2 show ?thesis by blast
qed

text \<open>
  An instance under the stand-ins, from the initial state: the attributes
  \<open>attributesA\<close> and then \<open>attributesB\<close> are registered with the same nullifier 7, in
  the first and the second leaf.
\<close>

theorem registerPassport_accepts_used_nullifier_witness:
  "registerPassport sumHash messageVerify (init 0) attributesA (FieldOf 7) firstLeafWitness
     [FieldOf 15, FieldOf 7]
     = Inr \<lparr> passportRoot = FieldOf 22, totalPassports = FieldOf 1, admin = 0,
             nullifierRoot = FieldOf 0 \<rparr>
   \<and> (\<exists>s2. registerPassport sumHash messageVerify
          \<lparr> passportRoot = FieldOf 22, totalPassports = FieldOf 1, admin = 0,
            nullifierRoot = FieldOf 0 \<rparr>
          attributesB (FieldOf 7) ((False, FieldOf 22) # replicate 18 (True, FieldOf 0))
          [FieldOf 24, FieldOf 7] = Inr s2
        \<and> totalPassports s2 = FieldOf 2)"
proof -
  let ?s1 = "\<lparr> passportRoot = FieldOf 22, totalPassports = FieldOf 1, admin = 0 :: nat,
               nullifierRoot = FieldOf 0 \<rparr>"
  let ?w2 = "(False, FieldOf 22) # replicate 18 (True, FieldOf 0)"
  have v: "messageVerify (admin ?s1) [identityHash sumHash attributesB, FieldOf 7]
      [FieldOf 24, FieldOf 7]"
    by (simp add: messageVerify_def identityHash_sum_B)
  have r: "calculateRoot sumHash ?w2 (FieldOf 0) = passportRoot ?s1"
    by (simp add: calculateRoot_Cons calculateRoot_sumHash_zeros sumHash_zero_right)
  from registerPassport_accepts_used_nullifier [OF first_registration v r]
  obtain s2 where "registerPassport sumHash messageVerify ?s1 attributesB (FieldOf 7) ?w2
      [FieldOf 24, FieldOf 7] = Inr s2"
    and "totalPassports s2 = fadd (fadd (totalPassports (init (0::nat))) (FieldOf 1)) (FieldOf 1)"
    by blast
  then have "registerPassport sumHash messageVerify ?s1 attributesB (FieldOf 7) ?w2
      [FieldOf 24, FieldOf 7] = Inr s2 \<and> totalPassports s2 = FieldOf 2"
    by (simp add: init_def fadd_FieldOf)
  with first_registration show ?thesis by blast
qed

section \<open>Conservation of the aggregates\<close>

text \<open>
  The counts that the code keeps. After any sequence of calls of
  \<open>registerParticipant\<close> on a new service, \<open>total\<close> is the number of successful
  registrations, and the sum of the six age buckets is the number of successful
  registrations whose age bracket is one of 0..5. So the sum of the buckets equals
  \<open>total\<close> when every call presents a bracket in 0..5.
\<close>

theorem aggregate_conservation:
  "total (aggregates (snd (registerAll H bigInt newCensusService calls)))
     = length (filter isRegistered (fst (registerAll H bigInt newCensusService calls)))
   \<and> bucketSum (aggregates (snd (registerAll H bigInt newCensusService calls)))
     = length (filter (\<lambda>(c, r). isRegistered r \<and> validBracket (callDemographics c))
         (zip calls (fst (registerAll H bigInt newCensusService calls))))
   \<and> (list_all (\<lambda>c. validBracket (callDemographics c)) calls \<longrightarrow>
        bucketSum (aggregates (snd (registerAll H bigInt newCensusService calls)))
          = total (aggregates (snd (registerAll H bigInt newCensusService calls))))"
proof -
  obtain rs svc where run: "registerAll H bigInt newCensusService calls = (rs, svc)"
    by (cases "registerAll H bigInt newCensusService calls")
  from registerAll_counts [OF run]
  have len: "length rs = length calls"
    and tot: "total (aggregates svc) = length (filter isRegistered rs)"
    and sum: "bucketSum (aggregates svc)
      = length (filter (\<lambda>(c, r). isRegistered r \<and> validBracket (callDemographics c))
          (zip calls rs))"
    by (simp_all add: new_service_aggregates)
  have "bucketSum (aggregates svc) = total (aggregates svc)"
    if valid: "list_all (\<lambda>c. validBracket (callDemographics c)) calls"
  proof -
    have "filter (\<lambda>(c, r). isRegistered r \<and> validBracket (callDemographics c)) (zip calls rs)
        = filter (\<lambda>(c, r). isRegistered r) (zip calls rs)"
      using valid by (intro filter_cong) (auto simp: list_all_iff dest: set_zip_leftD)
    moreover have "length (filter (\<lambda>(c, r). isRegistered r) (zip calls rs))
        = length (filter isRegistered (map snd (zip calls rs)))"
      by (simp add: filter_map comp_def case_prod_beta length_filter_conv_card)
    moreover from len have "map snd (zip calls rs) = rs" by simp
    ultimately show ?thesis using tot sum by simp
  qed
  with run tot sum show ?thesis by simp
qed

lemma young_then_old:
  "fst (registerAll sumHash decimalBigInt newCensusService [callYoung, callOld])
     = [Registered ''p1''
          \<lparr> cpPassportCommitment = ''12345'',
            cpDemographicHash = createDemographicHash sumHash demographicsYoung,
            cpNullifier = FieldOf 12352, cpMerkleIndex = 0 \<rparr>,
        Registered ''p2''
          \<lparr> cpPassportCommitment = ''12345'',
            cpDemographicHash = createDemographicHash sumHash demographicsOld,
            cpNullifier = FieldOf 12353, cpMerkleIndex = 1 \<rparr>]"
  by (simp add: registerParticipant_cases decimalBigInt_12345 callYoung_def callOld_def
      newCensusService_def emptyMap_def sumHash_FieldOf2 FieldOf_eq_iff fieldOrder_def
      leafCount_def split_def)

text \<open>
  An instance: two registrations on a new service, with the age brackets 0 and 5,
  under the stand-ins. Both succeed, and the sum of the buckets and \<open>total\<close> are 2.
\<close>

theorem aggregate_conservation_witness:
  "list_all (\<lambda>c. validBracket (callDemographics c)) [callYoung, callOld]
   \<and> length (filter isRegistered
        (fst (registerAll sumHash decimalBigInt newCensusService [callYoung, callOld]))) = 2
   \<and> bucketSum (aggregates
        (snd (registerAll sumHash decimalBigInt newCensusService [callYoung, callOld]))) = 2
   \<and> total (aggregates
        (snd (registerAll sumHash decimalBigInt newCensusService [callYoung, callOld]))) = 2"
proof -
  have v: "list_all (\<lambda>c. validBracket (callDemographics c)) [callYoung, callOld]"
    by (simp add: validBracket_def callYoung_def callOld_def demographicsYoung_def
        demographicsOld_def)
  have n: "length (filter isRegistered
        (fst (registerAll sumHash decimalBigInt newCensusService [callYoung, callOld]))) = 2"
    by (simp only: young_then_old) (simp add: isRegistered_def)
  from aggregate_conservation [of sumHash decimalBigInt "[callYoung, callOld]"] v n
  show ?thesis by simp
qed

text \<open>
  The contract checks the aggregates that the service keeps: \<open>verifyTotal\<close> compares
  the sum of the six buckets with \<open>total\<close>, and \<open>ZkCensus.createSnapshot\<close> asserts
  it. On a state with one participant, \<open>createSnapshot\<close> fails on \<open>verifyTotal\<close> for
  the aggregates with \<open>total\<close> 1 and every bucket 0.
\<close>

lemma snapshot_rejects_unbalanced_aggregates:
  "createSnapshot H ((censusInit k)\<lparr> totalParticipants := FieldOf 1 \<rparr>) timestamp
     \<lparr> age0to17F = FieldOf 0, age18to25F = FieldOf 0, age26to35F = FieldOf 0,
       age36to50F = FieldOf 0, age51to65F = FieldOf 0, age65plusF = FieldOf 0,
       totalF = FieldOf 1 \<rparr>
   = Inl SumMismatch"
  by (simp add: createSnapshot_def verifyTotal_def fadd_FieldOf FieldOf_zero_neq_one)

text \<open>
  C2. After every sequence of successful registrations the sum of the six age
  buckets should equal \<open>total\<close> and the number of successful registrations,
  whatever demographics the caller supplies. \<open>updateAggregates\<close> breaks this for an
  age bracket outside 0..5: it skips the bucket and still counts the registration in
  \<open>total\<close>. Whatever the hash, one registration with the age bracket 7 on a new
  service succeeds and leaves \<open>total\<close> at 1 and every bucket at 0, aggregates that
  the contract's \<open>verifyTotal\<close> refuses.
\<close>

theorem aggregate_out_of_range_bracket:
  "\<forall>H. fst (registerAll H decimalBigInt newCensusService [callOutOfRange])
          = [Registered ''p1''
               \<lparr> cpPassportCommitment = ''12345'',
                 cpDemographicHash = createDemographicHash H demographicsOutOfRange,
                 cpNullifier = H [FieldOf 12345, FieldOf 7], cpMerkleIndex = 0 \<rparr>]
     \<and> total (aggregates (snd (registerAll H decimalBigInt newCensusService [callOutOfRange])))
          = 1
     \<and> bucketSum (aggregates
          (snd (registerAll H decimalBigInt newCensusService [callOutOfRange]))) = 0"
  by (simp add: registerParticipant_cases decimalBigInt_12345 callOutOfRange_def
      newCensusService_def emptyMap_def FieldOf_zero_neq_one leafCount_def split_def
      updateAggregates_def demographicsOutOfRange_def initializeAggregates_def bucketSum_def)

section \<open>Atomicity of a registration\<close>

lemma censusRegisterParticipant_success:
  "censusRegisterParticipant H crk s c n dd pw nw = Inr s' \<Longrightarrow>
     \<exists>newNullifierRoot key. crk nw (FieldOf 1) = Some (newNullifierRoot, key)
       \<and> s' = s\<lparr> participantRoot := calculateRoot H pw (H [c, demographicDataHash H dd, n]),
                  censusNullifierRoot := newNullifierRoot,
                  totalParticipants := fadd (totalParticipants s) (FieldOf 1) \<rparr>"
  by (auto simp: censusRegisterParticipant_def Let_def split: option.splits if_splits prod.splits)

lemma registerParticipant_registered_state:
  "isRegistered (fst (registerParticipant H bigInt svc newId pc d secret)) \<Longrightarrow>
     \<exists>v. bigInt pc = Some v
       \<and> snd (registerParticipant H bigInt svc newId pc d secret)
         = svc\<lparr> participantTree := (participantTree svc)
                  (length (participants svc) :=
                     H [FieldOf v, createDemographicHash H d, H [FieldOf v, secret]]),
                nullifierMap := (nullifierMap svc)(H [FieldOf v, secret] := FieldOf 1),
                participants := mapSet newId
                  \<lparr> cpPassportCommitment = pc, cpDemographicHash = createDemographicHash H d,
                    cpNullifier = H [FieldOf v, secret],
                    cpMerkleIndex = length (participants svc) \<rparr> (participants svc),
                aggregates := updateAggregates (aggregates svc) d \<rparr>"
  by (auto simp: registerParticipant_cases isRegistered_def split: option.splits if_splits)

text \<open>
  C3. A call of \<open>CensusService.registerParticipant\<close> that does not register (the
  nullifier is used, \<open>BigInt\<close> or \<open>setLeaf\<close> throws) leaves the service as it was,
  and a call that registers has written the leaf, the nullifier, the participant and
  the aggregates together. A call of \<open>ZkCensus.registerParticipant\<close> in which an
  assertion fails leaves the ledger's state as it was, and a call that passes has
  written the participant root, the nullifier root and the count together.
\<close>

theorem registration_atomic:
  "(\<not> isRegistered (fst (registerParticipant H bigInt svc newId pc d secret)) \<longrightarrow>
      snd (registerParticipant H bigInt svc newId pc d secret) = svc)
   \<and> (isRegistered (fst (registerParticipant H bigInt svc newId pc d secret)) \<longrightarrow>
      (\<exists>v. bigInt pc = Some v
        \<and> snd (registerParticipant H bigInt svc newId pc d secret)
          = svc\<lparr> participantTree := (participantTree svc)
                   (length (participants svc) :=
                      H [FieldOf v, createDemographicHash H d, H [FieldOf v, secret]]),
                 nullifierMap := (nullifierMap svc)(H [FieldOf v, secret] := FieldOf 1),
                 participants := mapSet newId
                   \<lparr> cpPassportCommitment = pc, cpDemographicHash = createDemographicHash H d,
                     cpNullifier = H [FieldOf v, secret],
                     cpMerkleIndex = length (participants svc) \<rparr> (participants svc),
                 aggregates := updateAggregates (aggregates svc) d \<rparr>))
   \<and> (censusRegisterParticipant H crk s c n dd pw nw = Inl e \<longrightarrow>
      applyTransaction s (censusRegisterParticipant H crk s c n dd pw nw) = s)
   \<and> (censusRegisterParticipant H crk s c n dd pw nw = Inr s' \<longrightarrow>
      (\<exists>newNullifierRoot key. crk nw (FieldOf 1) = Some (newNullifierRoot, key)
        \<and> applyTransaction s (censusRegisterParticipant H crk s c n dd pw nw)
          = s\<lparr> participantRoot := calculateRoot H pw (H [c, demographicDataHash H dd, n]),
                 censusNullifierRoot := newNullifierRoot,
                 totalParticipants := fadd (totalParticipants s) (FieldOf 1) \<rparr>))"
proof (intro conjI impI)
  assume "\<not> isRegistered (fst (registerParticipant H bigInt svc newId pc d secret))"
  then show "snd (registerParticipant H bigInt svc newId pc d secret) = svc"
    by (rule registerParticipant_failed)
next
  assume "isRegistered (fst (registerParticipant H bigInt svc newId pc d secret))"
  then show "\<exists>v. bigInt pc = Some v
        \<and> snd (registerParticipant H bigInt svc newId pc d secret)
          = svc\<lparr> participantTree := (participantTree svc)
                   (length (participants svc) :=
                      H [FieldOf v, createDemographicHash H d, H [FieldOf v, secret]]),
                 nullifierMap := (nullifierMap svc)(H [FieldOf v, secret] := FieldOf 1),
                 participants := mapSet newId
                   \<lparr> cpPassportCommitment = pc, cpDemographicHash = createDemographicHash H d,
                     cpNullifier = H [FieldOf v, secret],
                     cpMerkleIndex = length (participants svc) \<rparr> (participants svc),
                 aggregates := updateAggregates (aggregates svc) d \<rparr>"
    by (rule registerParticipant_registered_state)
next
  assume "censusRegisterParticipant H crk s c n dd pw nw = Inl e"
  then show "applyTransaction s (censusRegisterParticipant H crk s c n dd pw nw) = s"
    by (simp add: applyTransaction_def)
next
  assume ok: "censusRegisterParticipant H crk s c n dd pw nw = Inr s'"
  from censusRegisterParticipant_success [OF ok] ok
  show "\<exists>newNullifierRoot key. crk nw (FieldOf 1) = Some (newNullifierRoot, key)
        \<and> applyTransaction s (censusRegisterParticipant H crk s c n dd pw nw)
          = s\<lparr> participantRoot := calculateRoot H pw (H [c, demographicDataHash H dd, n]),
                 censusNullifierRoot := newNullifierRoot,
                 totalParticipants := fadd (totalParticipants s) (FieldOf 1) \<rparr>"
    by (simp add: applyTransaction_def)
qed

lemma young_registered:
  "fst (registerParticipant sumHash decimalBigInt newCensusService ''p1'' ''12345''
          demographicsYoung (FieldOf 7))
     = Registered ''p1''
         \<lparr> cpPassportCommitment = ''12345'',
           cpDemographicHash = createDemographicHash sumHash demographicsYoung,
           cpNullifier = FieldOf 12352, cpMerkleIndex = 0 \<rparr>"
  by (simp add: registerParticipant_cases decimalBigInt_12345 new_service_unused
      new_service_population leafCount_def sumHash_FieldOf2)

lemma young_again:
  "fst (registerParticipant sumHash decimalBigInt
          (snd (registerParticipant sumHash decimalBigInt newCensusService ''p1'' ''12345''
                  demographicsYoung (FieldOf 7)))
          ''p2'' ''12345'' demographicsOld (FieldOf 7))
     = AlreadyRegistered"
  by (simp add: registerParticipant_cases decimalBigInt_12345 new_service_unused
      new_service_population leafCount_def sumHash_FieldOf2)

lemma census_first:
  "censusRegisterParticipant sumHash sumRootAndKey (censusInit (0::nat)) (FieldOf 12345)
     (FieldOf 7) dd firstLeafWitness (FieldOf 0, FieldOf 7)
   = Inr ((censusInit 0)
       \<lparr> participantRoot := sumHash [FieldOf 12345, demographicDataHash sumHash dd, FieldOf 7],
         censusNullifierRoot := FieldOf 1, totalParticipants := FieldOf 1 \<rparr>)"
  by (simp add: censusRegisterParticipant_def sumRootAndKey_def censusInit_def
      firstLeafWitness_def calculateRoot_sumHash_zeros sumHash_FieldOf2 fadd_FieldOf)

lemma census_replay:
  "censusRegisterParticipant sumHash sumRootAndKey
     ((censusInit (0::nat))
       \<lparr> participantRoot := r, censusNullifierRoot := FieldOf 1,
         totalParticipants := FieldOf 1 \<rparr>)
     (FieldOf 12345) (FieldOf 7) dd pw (FieldOf 0, FieldOf 7)
   = Inl NullifierRootMismatch"
  by (simp add: censusRegisterParticipant_def sumRootAndKey_def censusInit_def
      sumHash_FieldOf2 FieldOf_zero_neq_one)

text \<open>
  An instance under the stand-ins. On a new service a participant is registered with
  the commitment 12345 and the secret 7, and the population is 1; a second call with
  the same commitment and secret is answered \<open>Already registered\<close> and the service
  is as it was. On a new contract the nullifier 7 is registered with the witness of
  its key in the empty map; the same call again fails on the nullifier root, and the
  state is as it was.
\<close>

theorem registration_atomic_witness:
  "isRegistered (fst (registerParticipant sumHash decimalBigInt newCensusService ''p1''
       ''12345'' demographicsYoung (FieldOf 7)))
   \<and> getPopulation (snd (registerParticipant sumHash decimalBigInt newCensusService ''p1''
       ''12345'' demographicsYoung (FieldOf 7))) = 1
   \<and> \<not> isRegistered (fst (registerParticipant sumHash decimalBigInt
          (snd (registerParticipant sumHash decimalBigInt newCensusService ''p1'' ''12345''
                  demographicsYoung (FieldOf 7)))
          ''p2'' ''12345'' demographicsOld (FieldOf 7)))
   \<and> snd (registerParticipant sumHash decimalBigInt
          (snd (registerParticipant sumHash decimalBigInt newCensusService ''p1'' ''12345''
                  demographicsYoung (FieldOf 7)))
          ''p2'' ''12345'' demographicsOld (FieldOf 7))
       = snd (registerParticipant sumHash decimalBigInt newCensusService ''p1'' ''12345''
                  demographicsYoung (FieldOf 7))
   \<and> totalParticipants (applyTransaction (censusInit (0::nat))
        (censusRegisterParticipant sumHash sumRootAndKey (censusInit 0) (FieldOf 12345)
           (FieldOf 7) demographicDataA firstLeafWitness (FieldOf 0, FieldOf 7))) = FieldOf 1
   \<and> applyTransaction
        ((censusInit (0::nat))
          \<lparr> participantRoot := FieldOf 5, censusNullifierRoot := FieldOf 1,
            totalParticipants := FieldOf 1 \<rparr>)
        (censusRegisterParticipant sumHash sumRootAndKey
          ((censusInit 0)
            \<lparr> participantRoot := FieldOf 5, censusNullifierRoot := FieldOf 1,
              totalParticipants := FieldOf 1 \<rparr>)
          (FieldOf 12345) (FieldOf 7) demographicDataA firstLeafWitness (FieldOf 0, FieldOf 7))
       = (censusInit 0)
          \<lparr> participantRoot := FieldOf 5, censusNullifierRoot := FieldOf 1,
            totalParticipants := FieldOf 1 \<rparr>"
  (is "?a \<and> ?b \<and> ?c \<and> ?d \<and> ?e \<and> ?f")
proof -
  let ?H = sumHash and ?B = decimalBigInt
  let ?svc1 = "snd (registerParticipant ?H ?B newCensusService ''p1'' ''12345''
                  demographicsYoung (FieldOf 7))"
  let ?s1 = "(censusInit (0::nat))
          \<lparr> participantRoot := FieldOf 5, censusNullifierRoot := FieldOf 1,
            totalParticipants := FieldOf 1 \<rparr>"
  have a: ?a by (simp only: young_registered) (simp add: isRegistered_def)
  note first = registration_atomic [of ?H ?B newCensusService "''p1''" "''12345''"
      demographicsYoung "FieldOf 7", THEN conjunct2, THEN conjunct1, THEN mp, OF a]
  then obtain v where "participants ?svc1 = mapSet ''p1''
           \<lparr> cpPassportCommitment = ''12345'',
             cpDemographicHash = createDemographicHash ?H demographicsYoung,
             cpNullifier = ?H [FieldOf v, FieldOf 7],
             cpMerkleIndex = length (participants newCensusService) \<rparr>
           (participants newCensusService)"
    by (elim exE conjE) simp
  then have b: ?b by (simp add: getPopulation_def new_service_population)
  have c: ?c by (simp only: young_again) (simp add: isRegistered_def)
  note second = registration_atomic [of ?H ?B ?svc1 "''p2''" "''12345''" demographicsOld
      "FieldOf 7", THEN conjunct1, THEN mp, OF c]
  have d: ?d by (rule second)
  have e: ?e
    by (simp only: census_first) (simp add: applyTransaction_def)
  note replay = registration_atomic [where H = sumHash and crk = sumRootAndKey and s = "?s1"
      and c = "FieldOf 12345" and n = "FieldOf 7" and dd = demographicDataA
      and pw = firstLeafWitness and nw = "(FieldOf 0, FieldOf 7)" and e = NullifierRootMismatch,
      THEN conjunct2, THEN conjunct2, THEN conjunct1, THEN mp, OF census_replay]
  have f: ?f by (rule replay)
  from a b c d e f show ?thesis by (intro conjI)
qed

section \<open>Binding of the string commitment\<close>

lemma commitment_fields:
  "createStringCommitment H v s = H [H (orZero (serviceFields v)), s]"
  by (simp add: createStringCommitment_def utilsFields_eq)

lemma nul_padded_chunk: "chunkField (bs @ [CHR 0x00]) = chunkField bs" if "length bs < 31"
proof -
  from that have "pad31 (bs @ [CHR 0x00]) = pad31 bs"
    by (simp add: pad31_def replicate_app_Cons_same Suc_diff_Suc [symmetric] del: replicate_Suc
        flip: replicate_Suc)
  with that show ?thesis by (simp add: chunkField_def BigIntHex_chunk)
qed

text \<open>
  C4, as the code has it. A chunk is filled up to 31 bytes with zeros on the right,
  so a string and the same string followed by a NUL byte give the same fields.
  Apart from that the encoding loses nothing: for two different strings neither of
  which ends in a NUL byte, equal commitments under the same salt exhibit a
  collision of the hash, either on the two chunk lists or on the two pairs of
  value hash and salt; and equal results of \<open>hashString\<close> exhibit a collision on
  the two chunk lists.
\<close>

theorem string_commitment_binding:
  "v1 \<noteq> v2 \<and> noTrailingNul v1 \<and> noTrailingNul v2 \<longrightarrow>
     (createStringCommitment H v1 s = createStringCommitment H v2 s \<longrightarrow>
        collides H (orZero (utilsFields v1)) (orZero (utilsFields v2))
        \<or> collides H [H (orZero (utilsFields v1)), s] [H (orZero (utilsFields v2)), s])
     \<and> (hashString H v1 = hashString H v2 \<longrightarrow>
        collides H (orZero (serviceFields v1)) (orZero (serviceFields v2)))"
proof (intro impI conjI)
  assume a: "v1 \<noteq> v2 \<and> noTrailingNul v1 \<and> noTrailingNul v2"
  then have ne: "orZero (serviceFields v1) \<noteq> orZero (serviceFields v2)"
    using orZero_serviceFields_inj [of v1 v2] by blast
  {
    assume "createStringCommitment H v1 s = createStringCommitment H v2 s"
    then have "H [H (orZero (serviceFields v1)), s] = H [H (orZero (serviceFields v2)), s]"
      by (simp add: commitment_fields)
    with ne show "collides H (orZero (utilsFields v1)) (orZero (utilsFields v2))
        \<or> collides H [H (orZero (utilsFields v1)), s] [H (orZero (utilsFields v2)), s]"
      by (auto simp: collides_def utilsFields_eq)
  }
  {
    assume "hashString H v1 = hashString H v2"
    with ne show "collides H (orZero (serviceFields v1)) (orZero (serviceFields v2))"
      by (simp add: collides_def hashString_def)
  }
qed

text \<open>
  An instance: under the hash that is constantly zero the strings \<open>a\<close> and \<open>b\<close>
  have the same commitment and the same \<open>hashString\<close>, and their chunk lists are a
  collision of that hash.
\<close>

theorem string_commitment_binding_witness:
  "''a'' \<noteq> ''b'' \<and> noTrailingNul ''a'' \<and> noTrailingNul ''b''
   \<and> createStringCommitment (\<lambda>_. FieldOf 0) ''a'' (FieldOf 7)
       = createStringCommitment (\<lambda>_. FieldOf 0) ''b'' (FieldOf 7)
   \<and> hashString (\<lambda>_. FieldOf 0) ''a'' = hashString (\<lambda>_. FieldOf 0) ''b''
   \<and> collides (\<lambda>_. FieldOf 0) (orZero (serviceFields ''a'')) (orZero (serviceFields ''b''))"
proof -
  have h: "''a'' \<noteq> ''b'' \<and> noTrailingNul ''a'' \<and> noTrailingNul ''b''"
    by (simp add: noTrailingNul_def)
  have c: "createStringCommitment (\<lambda>_. FieldOf 0) ''a'' (FieldOf 7)
       = createStringCommitment (\<lambda>_. FieldOf 0) ''b'' (FieldOf 7)"
    by (simp add: createStringCommitment_def)
  have e: "hashString (\<lambda>_. FieldOf 0) ''a'' = hashString (\<lambda>_. FieldOf 0) ''b''"
    by (simp add: hashString_def)
  from string_commitment_binding [of "''a''" "''b''" "\<lambda>_. FieldOf 0" "FieldOf 7"] h e
  have "collides (\<lambda>_. FieldOf 0) (orZero (serviceFields ''a'')) (orZero (serviceFields ''b''))"
    by blast
  with h c e show ?thesis by blast
qed

text \<open>
  The claim as stated fails: whatever the hash and the salt, the one-byte string
  \<open>A\<close> and the two-byte string of \<open>A\<close> and a NUL byte have the same commitment and
  the same \<open>hashString\<close>, and so have the empty string and the NUL byte alone under
  \<open>hashString\<close>.
\<close>

theorem string_commitment_collision:
  "\<forall>H s. ''A'' \<noteq> [CHR ''A'', CHR 0x00]
     \<and> createStringCommitment H ''A'' s = createStringCommitment H [CHR ''A'', CHR 0x00] s
     \<and> hashString H ''A'' = hashString H [CHR ''A'', CHR 0x00]
     \<and> hashString H '''' = hashString H [CHR 0x00]"
proof (intro allI conjI)
  fix H :: poseidon and s :: Field
  show "''A'' \<noteq> [CHR ''A'', CHR 0x00]" by simp
  have f: "serviceFields [CHR ''A'', CHR 0x00] = serviceFields ''A''"
    using nul_padded_chunk [of "''A''"] by (simp add: serviceFields_Cons serviceFields_Nil)
  show "createStringCommitment H ''A'' s = createStringCommitment H [CHR ''A'', CHR 0x00] s"
    by (simp add: commitment_fields f)
  show "hashString H ''A'' = hashString H [CHR ''A'', CHR 0x00]"
    by (simp add: hashString_def f)
  have "chunkField [CHR 0x00] = FieldOf 0"
    by (simp add: chunkField_def BigIntHex_chunk pad31_def beValue_def foldl_nuls
        flip: replicate_Suc)
  then show "hashString H '''' = hashString H [CHR 0x00]"
    by (simp add: hashString_def orZero_def serviceFields_Cons serviceFields_Nil)
qed

section \<open>The age predicate\<close>

lemma proveAgeAbove_iff:
  "proveAgeAbove H dobYear dobMonth dobDay s c minAge currentYear currentMonth currentDay = Inr ()
   \<longleftrightarrow> H [dobYear, dobMonth, dobDay, s] = c
       \<and> toBigInt minAge \<le> (toBigInt currentYear - toBigInt dobYear) mod fieldOrder"
  by (simp add: proveAgeAbove_def greaterThanOrEqual_def toBigInt_fsub)

text \<open>
  When the year of birth is not after the current year the subtraction does not
  wrap, and the method passes exactly when the commitment matches and the year
  difference is at least \<open>minAge\<close>; the current month and day play no part.
\<close>

lemma proveAgeAbove_no_wrap:
  assumes "toBigInt dobYear \<le> toBigInt currentYear"
  shows "proveAgeAbove H dobYear dobMonth dobDay s c minAge currentYear currentMonth currentDay
           = Inr ()
         \<longleftrightarrow> H [dobYear, dobMonth, dobDay, s] = c
             \<and> toBigInt minAge \<le> toBigInt currentYear - toBigInt dobYear"
proof -
  have "toBigInt currentYear - toBigInt dobYear < fieldOrder"
    using toBigInt_range [of currentYear] toBigInt_range [of dobYear] by linarith
  with assms have "(toBigInt currentYear - toBigInt dobYear) mod fieldOrder
      = toBigInt currentYear - toBigInt dobYear"
    by simp
  then show ?thesis by (simp add: proveAgeAbove_iff)
qed

text \<open>
  C5. The claim fails on the code where the year of birth is after the current
  year: the field subtraction wraps around to a value just below the field order,
  which is at least any small \<open>minAge\<close>. For a date of birth in 2030, its matching
  commitment and the current year 2024 the method passes for \<open>minAge = 18\<close>,
  whatever the hash, the salt and the current month and day; the year difference
  is \<open>-6\<close>.
\<close>

theorem proveAgeAbove_future_birth_year:
  "proveAgeAbove H (FieldOf 2030) (FieldOf 5) (FieldOf 15) s
     (createDateCommitment H 2030 5 15 s) (FieldOf 18) (FieldOf 2024) currentMonth currentDay
   = Inr ()"
  by (simp add: proveAgeAbove_iff createDateCommitment_def toBigInt_FieldOf fieldOrder_def)

section \<open>The derivations of a nullifier\<close>

lemma serviceStringCommitment_eq:
  "serviceStringCommitment H v s = createStringCommitment H v s"
  by (simp add: serviceStringCommitment_def createStringCommitment_def utilsFields_eq)

lemma sumHash_pair: "toBigInt (sumHash [x, y]) = (toBigInt x + toBigInt y) mod fieldOrder"
  by (simp add: sumHash_def toBigInt_FieldOf)

text \<open>
  C6. Two of the four derivations are the formulas of the specification:
  \<open>registerIdentity\<close> stores the identity formula and \<open>createCensusNullifier\<close> is the
  census formula. The other two are not: \<open>PassportUtils.createNullifier\<close> is the
  string commitment itself, one hash short of the identity formula, and
  \<open>CensusService.registerParticipant\<close> hashes the commitment and the secret
  without a context identifier. Under the hash that adds its inputs the values
  differ from the formulas at the inputs shown.
\<close>

theorem nullifier_derivations:
  "map_sum id (\<lambda>(i, p, s). pcNullifier p)
       (fst (registerIdentity H svc newId passportId slt secret ident))
     = (if leafCount \<le> length (passports svc) then Inl IndexOutOfRange
        else Inr (spec_identity_nullifier H (idNumber ident) secret))
   \<and> createCensusNullifier H pc contextId secret = spec_census_nullifier H pc contextId secret
   \<and> createNullifier H idn secret = createStringCommitment H idn secret
   \<and> createNullifier sumHash ''E1234567A'' (FieldOf 7)
        \<noteq> spec_identity_nullifier sumHash ''E1234567A'' (FieldOf 7)
   \<and> fst (registerParticipant H decimalBigInt newCensusService newId ''12345'' d secret)
        = Registered newId
            \<lparr> cpPassportCommitment = ''12345'', cpDemographicHash = createDemographicHash H d,
              cpNullifier = H [FieldOf 12345, secret], cpMerkleIndex = 0 \<rparr>
   \<and> sumHash [FieldOf 12345, FieldOf 7]
        \<noteq> spec_census_nullifier sumHash (FieldOf 12345) (FieldOf 1) (FieldOf 7)"
proof (intro conjI)
  show "map_sum id (\<lambda>(i, p, s). pcNullifier p)
       (fst (registerIdentity H svc newId passportId slt secret ident))
     = (if leafCount \<le> length (passports svc) then Inl IndexOutOfRange
        else Inr (spec_identity_nullifier H (idNumber ident) secret))"
    by (simp add: registerIdentity_def setLeaf_def spec_identity_nullifier_def
        serviceStringCommitment_eq Let_def)
  show "createCensusNullifier H pc contextId secret = spec_census_nullifier H pc contextId secret"
    by (simp add: createCensusNullifier_def spec_census_nullifier_def)
  show "createNullifier H idn secret = createStringCommitment H idn secret"
    by (simp add: createNullifier_def createStringCommitment_def)
  show "createNullifier sumHash ''E1234567A'' (FieldOf 7)
        \<noteq> spec_identity_nullifier sumHash ''E1234567A'' (FieldOf 7)"
  proof
    let ?c = "createStringCommitment sumHash ''E1234567A'' (FieldOf 7)"
    assume "createNullifier sumHash ''E1234567A'' (FieldOf 7)
        = spec_identity_nullifier sumHash ''E1234567A'' (FieldOf 7)"
    then have "?c = sumHash [?c, FieldOf 7]"
      by (simp add: createNullifier_def createStringCommitment_def spec_identity_nullifier_def)
    then have "toBigInt ?c = toBigInt (sumHash [?c, FieldOf 7])" by simp
    then have eq: "toBigInt ?c = (toBigInt ?c + 7) mod fieldOrder"
      by (simp add: sumHash_pair toBigInt_FieldOf fieldOrder_def)
    have r: "0 \<le> toBigInt ?c \<and> toBigInt ?c < fieldOrder" by (rule toBigInt_range)
    show False
    proof (cases "toBigInt ?c + 7 < fieldOrder")
      case True
      with r have "(toBigInt ?c + 7) mod fieldOrder = toBigInt ?c + 7" by simp
      with eq show False by simp
    next
      case False
      with r have "(toBigInt ?c + 7) mod fieldOrder = toBigInt ?c + 7 - fieldOrder"
        by (simp add: mod_pos_geq fieldOrder_def)
      with eq show False by (simp add: fieldOrder_def)
    qed
  qed
  have d: "decimalBigInt ''12345'' = Some 12345"
    by (simp add: decimalBigInt_def)
  show "fst (registerParticipant H decimalBigInt newCensusService newId ''12345'' d secret)
        = Registered newId
            \<lparr> cpPassportCommitment = ''12345'', cpDemographicHash = createDemographicHash H d,
              cpNullifier = H [FieldOf 12345, secret], cpMerkleIndex = 0 \<rparr>"
    by (simp add: registerParticipant_def d newCensusService_def emptyMap_def setLeaf_def
        leafCount_def FieldOf_eq_iff fieldOrder_def Let_def)
  show "sumHash [FieldOf 12345, FieldOf 7]
        \<noteq> spec_census_nullifier sumHash (FieldOf 12345) (FieldOf 1) (FieldOf 7)"
    by (simp add: spec_census_nullifier_def sumHash_def toBigInt_FieldOf FieldOf_eq_iff
        fieldOrder_def)
qed

section \<open>The two age computations\<close>


section \<open>The nationality predicate\<close>

lemma toLowerCase_length: "toLowerCase a = toLowerCase b \<Longrightarrow> length a = length b"
  unfolding toLowerCase_def by (rule map_eq_imp_length_eq)

lemma case_variants_fields:
  assumes "a \<noteq> b" "toLowerCase a = toLowerCase b"
  shows "orZero (utilsFields a) \<noteq> orZero (utilsFields b)"
proof
  assume eq: "orZero (utilsFields a) = orZero (utilsFields b)"
  from assms(2) have len: "length a = length b" by (rule toLowerCase_length)
  with assms(1) have "a \<noteq> []" "b \<noteq> []" by auto
  with eq have "serviceFields a = serviceFields b"
    by (simp add: orZero_def utilsFields_eq serviceFields_Nil_iff)
  with len have "a = b" by (rule serviceFields_inj_length)
  with assms(1) show False by simp
qed

lemma toLowerCase_Singapore: "toLowerCase ''Singapore'' = toLowerCase ''singapore''"
  by code_simp

text \<open>
  C8, as the code has it. On chain, \<open>proveNationality\<close> first compares the
  recomputed commitment with the stored one and then the two field elements, so it
  passes exactly when both are equal; when the two field elements are the value
  hashes of two strings that differ only in the case of letters, it passes only on
  a collision of the hash. Off chain, \<open>generateNationalityProof\<close> compares no
  commitment and compares the two strings after \<open>toLowerCase\<close>: two strings that
  differ only in the case of letters match.
\<close>

theorem nationality_predicate:
  "(proveNationality H n s c t = Inr () \<longleftrightarrow> H [n, s] = c \<and> n = t)
   \<and> (H [n, s] \<noteq> c \<longrightarrow> proveNationality H n s c t = Inl CommitmentMismatch)
   \<and> (a \<noteq> b \<and> toLowerCase a = toLowerCase b
        \<and> proveNationality H (H (orZero (utilsFields a))) s (createStringCommitment H a s)
             (H (orZero (utilsFields b))) = Inr ()
       \<longrightarrow> collides H (orZero (utilsFields a)) (orZero (utilsFields b)))
   \<and> (map_of (identities svc) i = Some ident \<and> toLowerCase (nationality ident) = toLowerCase b
       \<longrightarrow> map_sum id natIsValid (generateNationalityProof H svc i s b) = Inr True)"
proof (intro conjI impI)
  show "proveNationality H n s c t = Inr () \<longleftrightarrow> H [n, s] = c \<and> n = t"
    by (simp add: proveNationality_def)
  show "proveNationality H n s c t = Inl CommitmentMismatch" if "H [n, s] \<noteq> c"
    using that by (simp add: proveNationality_def)
  show "collides H (orZero (utilsFields a)) (orZero (utilsFields b))"
    if h: "a \<noteq> b \<and> toLowerCase a = toLowerCase b
        \<and> proveNationality H (H (orZero (utilsFields a))) s (createStringCommitment H a s)
             (H (orZero (utilsFields b))) = Inr ()"
  proof -
    from h have "H (orZero (utilsFields a)) = H (orZero (utilsFields b))"
      by (simp add: proveNationality_def split: if_splits)
    moreover from h have "orZero (utilsFields a) \<noteq> orZero (utilsFields b)"
      using case_variants_fields by blast
    ultimately show ?thesis by (simp add: collides_def)
  qed
  show "map_sum id natIsValid (generateNationalityProof H svc i s b) = Inr True"
    if "map_of (identities svc) i = Some ident \<and> toLowerCase (nationality ident) = toLowerCase b"
    using that by (simp add: generateNationalityProof_def)
qed

text \<open>
  An instance: an identity with nationality \<open>Singapore\<close> and the target
  \<open>singapore\<close>. Under the hash that is constantly zero the contract's check passes
  on the two value hashes, which is a collision of that hash; the service reports
  the proof as valid.
\<close>

theorem nationality_predicate_witness:
  "proveNationality (\<lambda>_. FieldOf 0) (FieldOf 0) (FieldOf 7) (FieldOf 1) (FieldOf 0)
     = Inl CommitmentMismatch
   \<and> collides (\<lambda>_. FieldOf 0) (orZero (utilsFields ''Singapore''))
        (orZero (utilsFields ''singapore''))
   \<and> map_sum id natIsValid
        (generateNationalityProof (\<lambda>_. FieldOf 0)
           (newPassportService \<lparr> identities := [(''alice'', \<lparr> fullName = ''Alice'',
                dateOfBirth = \<lparr> year = 1990, month = 5, day = 15 \<rparr>,
                nationality = ''Singapore'', idNumber = ''E1234567A'' \<rparr>)] \<rparr>)
           ''alice'' (FieldOf 7) ''singapore'') = Inr True"
proof -
  let ?Z = "(\<lambda>_. FieldOf 0) :: poseidon"
  let ?ident = "\<lparr> fullName = ''Alice'', dateOfBirth = \<lparr> year = 1990, month = 5, day = 15 \<rparr>,
                nationality = ''Singapore'', idNumber = ''E1234567A'' \<rparr>"
  let ?svc = "newPassportService \<lparr> identities := [(''alice'', ?ident)] \<rparr>"
  note inst = nationality_predicate [of "?Z" "FieldOf 0" "FieldOf 7" "FieldOf 1" "FieldOf 0"
      "''Singapore''" "''singapore''" "?svc" "''alice''" "?ident"]
  have ne: "?Z [FieldOf 0, FieldOf 7] \<noteq> FieldOf 1"
    by (simp add: FieldOf_eq_iff fieldOrder_def)
  note low = toLowerCase_Singapore
  have pass: "proveNationality ?Z (?Z (orZero (utilsFields ''Singapore''))) (FieldOf 7)
      (createStringCommitment ?Z ''Singapore'' (FieldOf 7))
      (?Z (orZero (utilsFields ''singapore''))) = Inr ()"
    by (simp add: proveNationality_def createStringCommitment_def)
  have look: "map_of (identities ?svc) ''alice'' = Some ?ident" by simp
  have diff: "''Singapore'' \<noteq> ''singapore''" by simp
  from inst ne have 1: "proveNationality ?Z (FieldOf 0) (FieldOf 7) (FieldOf 1) (FieldOf 0)
     = Inl CommitmentMismatch" by blast
  from inst diff low pass
  have 2: "collides ?Z (orZero (utilsFields ''Singapore'')) (orZero (utilsFields ''singapore''))"
    by blast
  from inst look low
  have 3: "map_sum id natIsValid (generateNationalityProof ?Z ?svc ''alice'' (FieldOf 7)
      ''singapore'') = Inr True"
    by simp
  from 1 2 3 show ?thesis by blast
qed

text \<open>
  The claim as stated fails off chain: \<open>Singapore\<close> and \<open>singapore\<close> differ only
  in the case of one letter, and the service reports the match as valid, whatever
  the hash and the salt.
\<close>

theorem nationality_case_insensitive:
  "\<forall>H s. ''Singapore'' \<noteq> ''singapore''
     \<and> map_sum id natIsValid
         (generateNationalityProof H
           (newPassportService \<lparr> identities := [(''alice'', \<lparr> fullName = ''Alice'',
                dateOfBirth = \<lparr> year = 1990, month = 5, day = 15 \<rparr>,
                nationality = ''Singapore'', idNumber = ''E1234567A'' \<rparr>)] \<rparr>)
           ''alice'' s ''singapore'') = Inr True"
  by (simp add: generateNationalityProof_def toLowerCase_Singapore)

section \<open>The nullifier root of the passport contract\<close>

lemma passportStep_nullifierRoot: "nullifierRoot (passportStep H verify s c) = nullifierRoot s"
  by (cases c)
     (auto simp: passportStep_def applyTransaction_def setAdmin_def registerPassport_def Let_def
        split: sum.splits if_splits)

lemma passportRun_nullifierRoot: "nullifierRoot (passportRun H verify s cs) = nullifierRoot s"
  unfolding passportRun_def
  by (induction cs arbitrary: s) (simp_all add: passportStep_nullifierRoot)

text \<open>
  C9, as the code has it. \<open>registerPassport\<close> leaves the nullifier root as it was,
  whether it passes or fails, so after \<open>init\<close> and any sequence of calls the root is
  \<open>Field(0)\<close>. The call passes exactly when the admin's signature over the identity
  hash and the nullifier verifies and the witness gives the current root for the
  empty leaf: the nullifier bears on the outcome through the signed message, and in
  no other way.
\<close>

theorem registerPassport_nullifier_root:
  "nullifierRoot (applyTransaction s (registerPassport H verify s a n w g)) = nullifierRoot s
   \<and> nullifierRoot (passportRun H verify (init k) calls) = FieldOf 0
   \<and> ((\<exists>s'. registerPassport H verify s a n w g = Inr s')
        \<longleftrightarrow> verify (admin s) [identityHash H a, n] g
            \<and> calculateRoot H w (FieldOf 0) = passportRoot s)"
proof (intro conjI)
  show "nullifierRoot (applyTransaction s (registerPassport H verify s a n w g)) = nullifierRoot s"
    by (simp add: applyTransaction_def registerPassport_def Let_def)
  show "nullifierRoot (passportRun H verify (init k) calls) = FieldOf 0"
    by (simp add: passportRun_nullifierRoot init_def)
  show "(\<exists>s'. registerPassport H verify s a n w g = Inr s')
        \<longleftrightarrow> verify (admin s) [identityHash H a, n] g
            \<and> calculateRoot H w (FieldOf 0) = passportRoot s"
    by (rule registerPassport_success_iff)
qed

text \<open>
  The claim as stated fails in its last part: with the same state, attributes,
  witness and signature, the call passes for the nullifier 7 that the signature
  covers and fails for the nullifier 8.
\<close>

theorem registerPassport_nullifier_matters:
  "registerPassport sumHash messageVerify (init 0) attributesA (FieldOf 7) firstLeafWitness
     [FieldOf 15, FieldOf 7]
     = Inr \<lparr> passportRoot = FieldOf 22, totalPassports = FieldOf 1, admin = 0,
             nullifierRoot = FieldOf 0 \<rparr>
   \<and> registerPassport sumHash messageVerify (init 0) attributesA (FieldOf 8) firstLeafWitness
       [FieldOf 15, FieldOf 7]
     = Inl BadSignature"
proof -
  have "FieldOf 8 \<noteq> FieldOf 7" by (simp add: FieldOf_eq_iff fieldOrder_def)
  then have "registerPassport sumHash messageVerify (init 0) attributesA (FieldOf 8)
      firstLeafWitness [FieldOf 15, FieldOf 7] = Inl BadSignature"
    by (simp add: registerPassport_def messageVerify_def)
  with first_registration show ?thesis by blast
qed

section \<open>One commitment, two secrets\<close>

text \<open>
  C10. \<open>CensusService.registerParticipant\<close> derives the nullifier from the
  commitment and the caller's secret. On a service where neither nullifier is used
  and two leaves are free, two successive calls with the same commitment and two
  secrets whose nullifiers differ both register: \<open>total\<close> grows by two, and so does
  the population, the two identifiers \<open>uuidv4()\<close> being new.
\<close>

theorem same_commitment_two_secrets:
  assumes "bigInt pc = Some v"
    and "H [FieldOf v, secret1] \<noteq> H [FieldOf v, secret2]"
    and "nullifierMap svc (H [FieldOf v, secret1]) \<noteq> FieldOf 1"
    and "nullifierMap svc (H [FieldOf v, secret2]) \<noteq> FieldOf 1"
    and "length (participants svc) + 2 \<le> leafCount"
    and "id1 \<notin> fst ` set (participants svc)" "id2 \<notin> fst ` set (participants svc)"
      "id1 \<noteq> id2"
  shows "fst (registerParticipant H bigInt svc id1 pc d1 secret1)
        = Registered id1
            \<lparr> cpPassportCommitment = pc, cpDemographicHash = createDemographicHash H d1,
              cpNullifier = H [FieldOf v, secret1], cpMerkleIndex = length (participants svc) \<rparr>
    \<and> fst (registerParticipant H bigInt
          (snd (registerParticipant H bigInt svc id1 pc d1 secret1)) id2 pc d2 secret2)
        = Registered id2
            \<lparr> cpPassportCommitment = pc, cpDemographicHash = createDemographicHash H d2,
              cpNullifier = H [FieldOf v, secret2],
              cpMerkleIndex = Suc (length (participants svc)) \<rparr>
    \<and> total (aggregates (snd (registerParticipant H bigInt
          (snd (registerParticipant H bigInt svc id1 pc d1 secret1)) id2 pc d2 secret2)))
        = total (aggregates svc) + 2
    \<and> getPopulation (snd (registerParticipant H bigInt
          (snd (registerParticipant H bigInt svc id1 pc d1 secret1)) id2 pc d2 secret2))
        = getPopulation svc + 2"
proof -
  let ?r1 = "registerParticipant H bigInt svc id1 pc d1 secret1"
  let ?r2 = "registerParticipant H bigInt (snd ?r1) id2 pc d2 secret2"
  let ?p1 = "\<lparr> cpPassportCommitment = pc, cpDemographicHash = createDemographicHash H d1,
               cpNullifier = H [FieldOf v, secret1], cpMerkleIndex = length (participants svc) \<rparr>"
  from assms(5) have cap1: "\<not> leafCount \<le> length (participants svc)" by simp
  with assms(1,3) have r1: "fst ?r1 = Registered id1 ?p1"
    by (simp add: registerParticipant_cases)
  from cap1 assms(1,3) have n1: "nullifierMap (snd ?r1) = (nullifierMap svc)
      (H [FieldOf v, secret1] := FieldOf 1)"
    and p1: "participants (snd ?r1) = mapSet id1 ?p1 (participants svc)"
    and a1: "aggregates (snd ?r1) = updateAggregates (aggregates svc) d1"
    by (simp_all add: registerParticipant_cases)
  from p1 assms(6) have len1: "length (participants (snd ?r1)) = Suc (length (participants svc))"
    by (simp add: length_mapSet)
  with assms(5) have cap2: "\<not> leafCount \<le> length (participants (snd ?r1))" by simp
  from n1 assms(2,4) have free2: "nullifierMap (snd ?r1) (H [FieldOf v, secret2]) \<noteq> FieldOf 1"
    by simp
  let ?p2 = "\<lparr> cpPassportCommitment = pc, cpDemographicHash = createDemographicHash H d2,
               cpNullifier = H [FieldOf v, secret2],
               cpMerkleIndex = length (participants (snd ?r1)) \<rparr>"
  from cap2 free2 assms(1) have r2: "fst ?r2 = Registered id2 ?p2"
    and p2: "participants (snd ?r2) = mapSet id2 ?p2 (participants (snd ?r1))"
    and a2: "aggregates (snd ?r2) = updateAggregates (aggregates (snd ?r1)) d2"
    by (simp_all add: registerParticipant_cases)
  from p1 assms(7,8) have "id2 \<notin> fst ` set (participants (snd ?r1))"
    by (simp add: keys_mapSet)
  with p2 len1 have pop: "getPopulation (snd ?r2) = getPopulation svc + 2"
    by (simp add: getPopulation_def length_mapSet)
  from a1 a2 have tot: "total (aggregates (snd ?r2)) = total (aggregates svc) + 2"
    by (simp add: updateAggregates_total)
  from r1 r2 len1 tot pop show ?thesis by simp
qed

text \<open>
  An instance under the stand-ins, on a new service: the commitment 12345 with the
  secrets 7 and 8, whose nullifiers are 12352 and 12353.
\<close>

theorem same_commitment_two_secrets_witness:
  "decimalBigInt ''12345'' = Some 12345
   \<and> sumHash [FieldOf 12345, FieldOf 7] \<noteq> sumHash [FieldOf 12345, FieldOf 8]
   \<and> length (participants newCensusService) + 2 \<le> leafCount
   \<and> isRegistered (fst (registerParticipant sumHash decimalBigInt
        (snd (registerParticipant sumHash decimalBigInt newCensusService ''p1'' ''12345''
                demographicsYoung (FieldOf 7)))
        ''p2'' ''12345'' demographicsOld (FieldOf 8)))
   \<and> getPopulation (snd (registerParticipant sumHash decimalBigInt
        (snd (registerParticipant sumHash decimalBigInt newCensusService ''p1'' ''12345''
                demographicsYoung (FieldOf 7)))
        ''p2'' ''12345'' demographicsOld (FieldOf 8))) = 2
   \<and> total (aggregates (snd (registerParticipant sumHash decimalBigInt
        (snd (registerParticipant sumHash decimalBigInt newCensusService ''p1'' ''12345''
                demographicsYoung (FieldOf 7)))
        ''p2'' ''12345'' demographicsOld (FieldOf 8)))) = 2"
proof -
  have ne: "sumHash [FieldOf 12345, FieldOf 7] \<noteq> sumHash [FieldOf 12345, FieldOf 8]"
    by (simp add: sumHash_FieldOf2 FieldOf_eq_iff fieldOrder_def)
  have cap: "length (participants newCensusService) + 2 \<le> leafCount"
    by (simp add: new_service_population leafCount_def)
  have fresh: "''p1'' \<notin> fst ` set (participants newCensusService)"
    "''p2'' \<notin> fst ` set (participants newCensusService)" "''p1'' \<noteq> ''p2''"
    by (simp_all add: new_service_population)
  note two = same_commitment_two_secrets [where H = sumHash and bigInt = decimalBigInt
      and pc = "''12345''" and v = 12345 and ?secret1.0 = "FieldOf 7" and ?secret2.0 = "FieldOf 8"
      and svc = newCensusService and ?id1.0 = "''p1''" and ?id2.0 = "''p2''"
      and ?d1.0 = demographicsYoung and ?d2.0 = demographicsOld,
      OF decimalBigInt_12345 ne new_service_unused new_service_unused cap fresh]
  from two have "isRegistered (fst (registerParticipant sumHash decimalBigInt
        (snd (registerParticipant sumHash decimalBigInt newCensusService ''p1'' ''12345''
                demographicsYoung (FieldOf 7)))
        ''p2'' ''12345'' demographicsOld (FieldOf 8)))"
    by (elim conjE) (simp add: isRegistered_def)
  moreover from two have "getPopulation (snd (registerParticipant sumHash decimalBigInt
        (snd (registerParticipant sumHash decimalBigInt newCensusService ''p1'' ''12345''
                demographicsYoung (FieldOf 7)))
        ''p2'' ''12345'' demographicsOld (FieldOf 8))) = 2"
    by (elim conjE) (simp add: getPopulation_def new_service_population)
  moreover from two have "total (aggregates (snd (registerParticipant sumHash decimalBigInt
        (snd (registerParticipant sumHash decimalBigInt newCensusService ''p1'' ''12345''
                demographicsYoung (FieldOf 7)))
        ''p2'' ''12345'' demographicsOld (FieldOf 8)))) = 2"
    by (elim conjE) (simp add: new_service_aggregates)
  ultimately show ?thesis using decimalBigInt_12345 ne cap by (intro conjI)
qed

end
